theory Spec2Isabelle
  imports Complex_Main
begin

section \<open>Values exchanged with the caller\<close>

text \<open>
  The request body (\<open>request.json\<close>) and the response bodies are JSON documents.  Python
  integers are unbounded (\<open>int\<close>).  A JSON number with a fraction or an exponent is a
  Python float: \<open>JFloat r\<close> stands for the finite float whose value is the real \<open>r\<close>.
  An integer that a \<open>Float\<close> field reads is converted by \<open>float(k)\<close>, with the rounding
  and the overflow of that conversion (\<open>py_float\<close> below).  A JSON object is the list
  of its members; the parser hands the application a dict, so the member names of an
  object are pairwise different and the order of the members carries no meaning.
\<close>

datatype json =
    JNull
  | JBool bool
  | JInt int
  | JFloat real
  | JStr string
  | JArr "json list"
  | JObj "(string \<times> json) list"

type_synonym datetime = int

text \<open>A field value after deserialisation (an entry of the dict that \<open>Schema.load\<close> returns).\<close>

datatype val = VInt int | VFloat real | VStr string | VDateTime datetime

text \<open>Exceptions that no handler of the application catches.\<close>

datatype exn = IntegrityError | KeyError | TypeError

text \<open>
  What a view function hands back: a body with a status code, or an exception that leaves
  the view function uncaught (the framework then answers with its generic server error).
\<close>

datatype response = Response json nat | Unhandled exn

text \<open>
  Conversions that the libraries and the database server perform on text, taken as
  parameters: reading a number or a timestamp from a string, printing a timestamp, and the
  comparison the unique index on \<open>users.email\<close> uses beyond plain equality of the two
  strings (its collation).
\<close>

record env =
  int_of_str :: "string \<Rightarrow> int option"
  float_of_str :: "string \<Rightarrow> real option"
  datetime_of_str :: "string \<Rightarrow> datetime option"
  isoformat :: "datetime \<Rightarrow> string"
  collate :: "string \<Rightarrow> string \<Rightarrow> bool"

subsection \<open>Printing integers (f-strings)\<close>

fun str_nat :: "nat \<Rightarrow> string" where
  "str_nat n = (if n < 10 then [''0123456789'' ! n]
                else str_nat (n div 10) @ [''0123456789'' ! (n mod 10)])"

declare str_nat.simps [simp del]

definition str_int :: "int \<Rightarrow> string" where
  "str_int i = (if i < 0 then ''-'' @ str_nat (nat (- i)) else str_nat (nat i))"

section \<open>Database models\<close>

text \<open>
  The three mapped classes \<open>User\<close>, \<open>Order\<close>, \<open>Product\<close> and the association table
  \<open>order_product\<close>.  A table is the list of its rows.  The relationship attributes
  (\<open>orders\<close>, \<open>user\<close>, \<open>products\<close>) are not stored: they are queries, defined below.
\<close>

record user =
  u_id :: int
  u_name :: string
  u_address :: string
  u_email :: string

record order =
  o_id :: int
  o_order_date :: datetime
  o_user_id :: int

record product =
  p_id :: int
  p_product_name :: string
  p_price :: real

text \<open>
  The database: the four tables and the auto-increment counter of each primary key
  column \<open>id\<close>.
\<close>

record store =
  users :: "user list"
  orders :: "order list"
  products :: "product list"
  order_product :: "(int \<times> int) list"
  users_autoinc :: int
  orders_autoinc :: int
  products_autoinc :: int

definition empty_store :: store where
  "empty_store = \<lparr>users = [], orders = [], products = [], order_product = [],
                    users_autoinc = 1, orders_autoinc = 1, products_autoinc = 1\<rparr>"

section \<open>Schemas\<close>

text \<open>
  A schema is the list of its fields: name, kind and whether the field is required.
  \<open>SQLAlchemyAutoSchema\<close> derives one field from each column of the model: a column that
  is not nullable and has no default (the auto-increment key has one) is required, and a
  \<open>String(n)\<close> column gets the validator \<open>Length(max=n)\<close>.  \<open>OrderSchema\<close> declares
  \<open>user_id\<close> and \<open>order_date\<close> itself.  No schema sets \<open>Meta.unknown\<close>, so each one
  keeps the library's default, \<open>RAISE\<close>.
\<close>

datatype field_kind = Integer | Float | String nat | DateTime

type_synonym field = "string \<times> field_kind \<times> bool"

definition UserSchema :: "field list" where
  "UserSchema = [(''id'', Integer, False), (''name'', String 50, True),
                 (''address'', String 150, True), (''email'', String 50, True)]"

definition OrderSchema :: "field list" where
  "OrderSchema = [(''user_id'', Integer, True), (''order_date'', DateTime, False),
                  (''id'', Integer, False)]"

definition ProductSchema :: "field list" where
  "ProductSchema = [(''id'', Integer, False), (''product_name'', String 100, True),
                    (''price'', Float, True)]"

text \<open>
  Python's \<open>float(k)\<close> on an integer.  Below \<open>2 ^ 53\<close> in magnitude the integer is a
  float already.  A larger one is rounded to 53 significant bits, a tie going to the even
  neighbour, and the conversion raises \<open>OverflowError\<close> (\<open>None\<close>) when the rounded
  value reaches \<open>2 ^ 1024\<close>.
\<close>

fun bit_length :: "nat \<Rightarrow> nat" where
  "bit_length n = (if n = 0 then 0 else Suc (bit_length (n div 2)))"

declare bit_length.simps [simp del]

definition round_half_even :: "nat \<Rightarrow> nat \<Rightarrow> nat" where
  "round_half_even n shift =
     (let q = n div 2 ^ shift; r = n mod 2 ^ shift; half = 2 ^ (shift - 1)
      in (if half < r \<or> (r = half \<and> odd q) then q + 1 else q) * 2 ^ shift)"

definition float_of_nat :: "nat \<Rightarrow> real option" where
  "float_of_nat n =
     (if n < 2 ^ 53 then Some (real n)
      else (let m = round_half_even n (bit_length n - 53)
            in if 2 ^ 1024 \<le> m then None else Some (real m)))"

definition py_float :: "int \<Rightarrow> real option" where
  "py_float k = (if k < 0 then map_option uminus (float_of_nat (nat (- k)))
                 else float_of_nat (nat k))"

text \<open>Python's \<open>int(x)\<close> on a float: truncation towards zero.\<close>

definition trunc :: "real \<Rightarrow> int" where
  "trunc r = (if r < 0 then \<lceil>r\<rceil> else \<lfloor>r\<rfloor>)"

text \<open>
  Deserialising one field value: the message of the \<open>ValidationError\<close>, or the value.
  No field allows \<open>null\<close>; the number fields refuse booleans and are not strict; a
  \<open>Float\<close> field answers \<open>Number too large.\<close> when the conversion overflows.
\<close>

fun deserialize :: "env \<Rightarrow> field_kind \<Rightarrow> json \<Rightarrow> string + val" where
  "deserialize E k JNull = Inl ''Field may not be null.''"
| "deserialize E Integer (JInt i) = Inr (VInt i)"
| "deserialize E Integer (JFloat r) = Inr (VInt (trunc r))"
| "deserialize E Integer (JStr s) =
     (case int_of_str E s of Some i \<Rightarrow> Inr (VInt i) | None \<Rightarrow> Inl ''Not a valid integer.'')"
| "deserialize E Integer _ = Inl ''Not a valid integer.''"
| "deserialize E Float (JInt i) =
     (case py_float i of Some r \<Rightarrow> Inr (VFloat r) | None \<Rightarrow> Inl ''Number too large.'')"
| "deserialize E Float (JFloat r) = Inr (VFloat r)"
| "deserialize E Float (JStr s) =
     (case float_of_str E s of Some r \<Rightarrow> Inr (VFloat r) | None \<Rightarrow> Inl ''Not a valid number.'')"
| "deserialize E Float _ = Inl ''Not a valid number.''"
| "deserialize E (String n) (JStr s) =
     (if n < length s then Inl (''Longer than maximum length '' @ str_nat n @ ''.'')
      else Inr (VStr s))"
| "deserialize E (String n) _ = Inl ''Not a valid string.''"
| "deserialize E DateTime (JStr s) =
     (case datetime_of_str E s of Some d \<Rightarrow> Inr (VDateTime d)
      | None \<Rightarrow> Inl ''Not a valid datetime.'')"
| "deserialize E DateTime _ = Inl ''Not a valid datetime.''"

text \<open>
  The declared fields, in order: the error messages by field name, and the values of the
  fields that were read.  A field that is absent and not required is left out of the
  result.
\<close>

type_synonym messages = "(string \<times> string list) list"

fun load_fields :: "env \<Rightarrow> (string \<times> json) list \<Rightarrow> field list \<Rightarrow> messages \<times> (string \<times> val) list"
  where
  "load_fields E kvs [] = ([], [])"
| "load_fields E kvs ((name, kind, required) # fs) =
     (let (errs, vals) = load_fields E kvs fs in
      case map_of kvs name of
        None \<Rightarrow> if required then ((name, [''Missing data for required field.'']) # errs, vals)
                else (errs, vals)
      | Some j \<Rightarrow> (case deserialize E kind j of
                    Inl msg \<Rightarrow> ((name, [msg]) # errs, vals)
                  | Inr v \<Rightarrow> (errs, (name, v) # vals)))"

text \<open>The members of the input that no field of the schema declares (\<open>unknown = RAISE\<close>).\<close>

definition unknown_fields :: "(string \<times> json) list \<Rightarrow> field list \<Rightarrow> messages" where
  "unknown_fields kvs schema =
     map (\<lambda>(k, j). (k, [''Unknown field.''])) (filter (\<lambda>(k, j). k \<notin> set (map fst schema)) kvs)"

text \<open>\<open>Schema.load\<close>: the messages of the \<open>ValidationError\<close> it raises, or the loaded dict.\<close>

definition load :: "env \<Rightarrow> field list \<Rightarrow> json \<Rightarrow> messages + (string \<times> val) list" where
  "load E schema data =
     (case data of
        JObj kvs \<Rightarrow>
          (let (errs, vals) = load_fields E kvs schema;
               errs' = errs @ unknown_fields kvs schema
           in if errs' = [] then Inr vals else Inl errs')
      | _ \<Rightarrow> Inl [(''_schema'', [''Invalid input type.''])])"

text \<open>\<open>jsonify(e.messages)\<close>.\<close>

definition jsonify_messages :: "messages \<Rightarrow> json" where
  "jsonify_messages ms = JObj (map (\<lambda>(k, msgs). (k, JArr (map JStr msgs))) ms)"

text \<open>\<open>jsonify({'message': m})\<close>.\<close>

definition message :: "string \<Rightarrow> json" where
  "message m = JObj [(''message'', JStr m)]"

text \<open>
  \<open>Schema.dump\<close> followed by \<open>jsonify\<close>.  Dumping \<open>None\<close> finds no attribute at all and
  gives the empty object.
\<close>

definition dump_user :: "user option \<Rightarrow> json" where
  "dump_user x = (case x of None \<Rightarrow> JObj []
     | Some u \<Rightarrow> JObj [(''id'', JInt (u_id u)), (''name'', JStr (u_name u)),
                       (''address'', JStr (u_address u)), (''email'', JStr (u_email u))])"

definition dump_order :: "env \<Rightarrow> order option \<Rightarrow> json" where
  "dump_order E x = (case x of None \<Rightarrow> JObj []
     | Some ord \<Rightarrow> JObj [(''user_id'', JInt (o_user_id ord)),
                         (''order_date'', JStr (isoformat E (o_order_date ord))),
                         (''id'', JInt (o_id ord))])"

definition dump_product :: "product option \<Rightarrow> json" where
  "dump_product x = (case x of None \<Rightarrow> JObj []
     | Some p \<Rightarrow> JObj [(''id'', JInt (p_id p)), (''product_name'', JStr (p_product_name p)),
                       (''price'', JFloat (p_price p))])"

section \<open>The session and the database\<close>

text \<open>\<open>db.session.get(Model, id)\<close>: the row with that primary key, or \<open>None\<close>.\<close>

definition get_User :: "store \<Rightarrow> int \<Rightarrow> user option" where
  "get_User s i = find (\<lambda>u. u_id u = i) (users s)"

definition get_Order :: "store \<Rightarrow> int \<Rightarrow> order option" where
  "get_Order s i = find (\<lambda>ord. o_id ord = i) (orders s)"

definition get_Product :: "store \<Rightarrow> int \<Rightarrow> product option" where
  "get_Product s i = find (\<lambda>p. p_id p = i) (products s)"

text \<open>
  The relationships.  \<open>User.orders\<close> selects the orders by their foreign key;
  \<open>Order.products\<close> and \<open>Product.orders\<close> join through the association table.
\<close>

definition User_orders :: "store \<Rightarrow> user \<Rightarrow> order list" where
  "User_orders s u = filter (\<lambda>ord. o_user_id ord = u_id u) (orders s)"

definition Order_products :: "store \<Rightarrow> order \<Rightarrow> product list" where
  "Order_products s ord =
     concat (map (\<lambda>(a, b). if a = o_id ord then filter (\<lambda>p. p_id p = b) (products s) else [])
                 (order_product s))"

definition Product_orders :: "store \<Rightarrow> product \<Rightarrow> order list" where
  "Product_orders s p =
     concat (map (\<lambda>(a, b). if b = p_id p then filter (\<lambda>ord. o_id ord = a) (orders s) else [])
                 (order_product s))"

text \<open>
  Two emails that the unique index on \<open>users.email\<close> takes for the same key: equal
  strings, or strings its collation does not tell apart.
\<close>

definition same_email :: "env \<Rightarrow> string \<Rightarrow> string \<Rightarrow> bool" where
  "same_email E a b = (a = b \<or> collate E a b \<or> collate E b a)"

text \<open>
  What \<open>db.session.commit()\<close> sends to the database for each unit of work, with the
  constraints the tables declare: primary keys, the unique email, the foreign keys and
  \<open>nullable=False\<close>.  A statement that violates one raises \<open>IntegrityError\<close> and the
  transaction is rolled back; an \<open>INSERT\<close> has taken its auto-increment value by then.
\<close>

definition insert_user :: "env \<Rightarrow> store \<Rightarrow> string \<Rightarrow> string \<Rightarrow> string \<Rightarrow> (exn + user) \<times> store" where
  "insert_user E s n a e =
     (let new_user = \<lparr>u_id = users_autoinc s, u_name = n, u_address = a, u_email = e\<rparr>;
          s1 = s\<lparr>users_autoinc := users_autoinc s + 1\<rparr>
      in if list_ex (\<lambda>u. u_id u = u_id new_user \<or> same_email E (u_email u) e) (users s)
         then (Inl IntegrityError, s1)
         else (Inr new_user, s1\<lparr>users := users s @ [new_user]\<rparr>))"

definition update_user_row :: "env \<Rightarrow> store \<Rightarrow> user \<Rightarrow> exn + store" where
  "update_user_row E s u' =
     (if list_ex (\<lambda>u. u_id u \<noteq> u_id u' \<and> same_email E (u_email u) (u_email u')) (users s)
      then Inl IntegrityError
      else Inr (s\<lparr>users := map (\<lambda>u. if u_id u = u_id u' then u' else u) (users s)\<rparr>))"

text \<open>
  Deleting a user: the relationship \<open>orders\<close> has no cascade, so the unit of work first
  sets \<open>user_id\<close> of the user's orders to \<open>NULL\<close>, which the column does not allow.
\<close>

definition delete_user_row :: "store \<Rightarrow> user \<Rightarrow> exn + store" where
  "delete_user_row s u =
     (if User_orders s u \<noteq> [] then Inl IntegrityError
      else Inr (s\<lparr>users := filter (\<lambda>v. u_id v \<noteq> u_id u) (users s)\<rparr>))"

definition insert_order :: "store \<Rightarrow> datetime \<Rightarrow> int \<Rightarrow> (exn + order) \<times> store" where
  "insert_order s d uid =
     (let new_order = \<lparr>o_id = orders_autoinc s, o_order_date = d, o_user_id = uid\<rparr>;
          s1 = s\<lparr>orders_autoinc := orders_autoinc s + 1\<rparr>
      in if list_ex (\<lambda>ord. o_id ord = o_id new_order) (orders s) \<or> get_User s uid = None
         then (Inl IntegrityError, s1)
         else (Inr new_order, s1\<lparr>orders := orders s @ [new_order]\<rparr>))"

definition insert_order_product :: "store \<Rightarrow> int \<Rightarrow> int \<Rightarrow> exn + store" where
  "insert_order_product s oid pid =
     (if (oid, pid) \<in> set (order_product s) \<or> get_Order s oid = None \<or> get_Product s pid = None
      then Inl IntegrityError
      else Inr (s\<lparr>order_product := order_product s @ [(oid, pid)]\<rparr>))"

definition delete_order_product :: "store \<Rightarrow> int \<Rightarrow> int \<Rightarrow> store" where
  "delete_order_product s oid pid =
     s\<lparr>order_product := filter (\<lambda>r. r \<noteq> (oid, pid)) (order_product s)\<rparr>"

definition insert_product :: "store \<Rightarrow> string \<Rightarrow> real \<Rightarrow> (exn + product) \<times> store" where
  "insert_product s n pr =
     (let new_product = \<lparr>p_id = products_autoinc s, p_product_name = n, p_price = pr\<rparr>;
          s1 = s\<lparr>products_autoinc := products_autoinc s + 1\<rparr>
      in if list_ex (\<lambda>p. p_id p = p_id new_product) (products s)
         then (Inl IntegrityError, s1)
         else (Inr new_product, s1\<lparr>products := products s @ [new_product]\<rparr>))"

definition update_product_row :: "store \<Rightarrow> product \<Rightarrow> store" where
  "update_product_row s p' =
     s\<lparr>products := map (\<lambda>p. if p_id p = p_id p' then p' else p) (products s)\<rparr>"

text \<open>
  Deleting a product also deletes the association rows of its loaded \<open>orders\<close>
  collection; a row of \<open>order_product\<close> that still refers to the product afterwards
  violates the foreign key.
\<close>

definition delete_product_row :: "store \<Rightarrow> product \<Rightarrow> exn + store" where
  "delete_product_row s p =
     (let loaded = map o_id (Product_orders s p);
          rest = filter (\<lambda>(a, b). \<not> (b = p_id p \<and> a \<in> set loaded)) (order_product s)
      in if list_ex (\<lambda>(a, b). b = p_id p) rest then Inl IntegrityError
         else Inr (s\<lparr>products := filter (\<lambda>q. p_id q \<noteq> p_id p) (products s),
                     order_product := rest\<rparr>))"

text \<open>
  Reading an entry of the loaded dict.  \<open>d[k]\<close> raises \<open>KeyError\<close> when the key is
  missing; the entry of a field has the kind of that field, so the branch for a value of
  another kind is never taken on a dict that \<open>load\<close> returned.
\<close>

definition item_str :: "(string \<times> val) list \<Rightarrow> string \<Rightarrow> exn + string" where
  "item_str d k = (case map_of d k of None \<Rightarrow> Inl KeyError
                   | Some v \<Rightarrow> (case v of VStr x \<Rightarrow> Inr x | _ \<Rightarrow> Inl TypeError))"

definition item_int :: "(string \<times> val) list \<Rightarrow> string \<Rightarrow> exn + int" where
  "item_int d k = (case map_of d k of None \<Rightarrow> Inl KeyError
                   | Some v \<Rightarrow> (case v of VInt x \<Rightarrow> Inr x | _ \<Rightarrow> Inl TypeError))"

definition item_float :: "(string \<times> val) list \<Rightarrow> string \<Rightarrow> exn + real" where
  "item_float d k = (case map_of d k of None \<Rightarrow> Inl KeyError
                     | Some v \<Rightarrow> (case v of VFloat x \<Rightarrow> Inr x | _ \<Rightarrow> Inl TypeError))"

text \<open>\<open>d.get(k)\<close> on a timestamp field: \<open>None\<close> when the key is missing.\<close>

definition get_datetime :: "(string \<times> val) list \<Rightarrow> string \<Rightarrow> exn + datetime option" where
  "get_datetime d k = (case map_of d k of None \<Rightarrow> Inr None
                       | Some v \<Rightarrow> (case v of VDateTime x \<Rightarrow> Inr (Some x) | _ \<Rightarrow> Inl TypeError))"

section \<open>Routes\<close>

text \<open>
  Each view function takes the database, the path parameters and the request body, and
  returns its response with the database after the request.  A view function that only
  reads returns its response.
\<close>

subsection \<open>Users\<close>

definition create_user :: "env \<Rightarrow> store \<Rightarrow> json \<Rightarrow> response \<times> store" where
  "create_user E s body =
     (case load E UserSchema body of
        Inl e \<Rightarrow> (Response (jsonify_messages e) 400, s)
      | Inr user_data \<Rightarrow>
          (case item_str user_data ''name'' of Inl x \<Rightarrow> (Unhandled x, s) | Inr n \<Rightarrow>
          (case item_str user_data ''address'' of Inl x \<Rightarrow> (Unhandled x, s) | Inr a \<Rightarrow>
          (case item_str user_data ''email'' of Inl x \<Rightarrow> (Unhandled x, s) | Inr e \<Rightarrow>
          (case insert_user E s n a e of
             (Inl x, s') \<Rightarrow> (Unhandled x, s')
           | (Inr new_user, s') \<Rightarrow> (Response (dump_user (Some new_user)) 201, s'))))))"

definition get_users :: "store \<Rightarrow> response" where
  "get_users s = Response (JArr (map (\<lambda>u. dump_user (Some u)) (users s))) 200"

definition get_user :: "store \<Rightarrow> int \<Rightarrow> response" where
  "get_user s i = Response (dump_user (get_User s i)) 200"

definition update_user :: "env \<Rightarrow> store \<Rightarrow> int \<Rightarrow> json \<Rightarrow> response \<times> store" where
  "update_user E s i body =
     (case get_User s i of
        None \<Rightarrow> (Response (message ''Invalid user id'') 400, s)
      | Some u \<Rightarrow>
          (case load E UserSchema body of
             Inl e \<Rightarrow> (Response (jsonify_messages e) 400, s)
           | Inr user_data \<Rightarrow>
               (case item_str user_data ''name'' of Inl x \<Rightarrow> (Unhandled x, s) | Inr n \<Rightarrow>
               (case item_str user_data ''address'' of Inl x \<Rightarrow> (Unhandled x, s) | Inr a \<Rightarrow>
               (case item_str user_data ''email'' of Inl x \<Rightarrow> (Unhandled x, s) | Inr e \<Rightarrow>
               (let u' = u\<lparr>u_name := n, u_address := a, u_email := e\<rparr> in
                (case update_user_row E s u' of
                   Inl x \<Rightarrow> (Unhandled x, s)
                 | Inr s' \<Rightarrow> (Response (dump_user (Some u')) 200, s'))))))))"

definition delete_user :: "store \<Rightarrow> int \<Rightarrow> response \<times> store" where
  "delete_user s i =
     (case get_User s i of
        None \<Rightarrow> (Response (message ''Invalid user id'') 400, s)
      | Some u \<Rightarrow>
          (case delete_user_row s u of
             Inl x \<Rightarrow> (Unhandled x, s)
           | Inr s' \<Rightarrow>
               (Response (JArr [message (''Successfully deleted user '' @ str_int i), JInt 200]) 200,
                s')))"

subsection \<open>Orders\<close>

text \<open>\<open>now\<close> is the server's clock at the insert (\<open>server_default=func.now()\<close>).\<close>

definition create_order :: "env \<Rightarrow> datetime \<Rightarrow> store \<Rightarrow> json \<Rightarrow> response \<times> store" where
  "create_order E now s body =
     (case load E OrderSchema body of
        Inl e \<Rightarrow> (Response (jsonify_messages e) 400, s)
      | Inr order_data \<Rightarrow>
          (case item_int order_data ''user_id'' of Inl x \<Rightarrow> (Unhandled x, s) | Inr uid \<Rightarrow>
          (case get_User s uid of
             None \<Rightarrow> (Response (message ''Invalid user_id'') 400, s)
           | Some u \<Rightarrow>
               (case get_datetime order_data ''order_date'' of Inl x \<Rightarrow> (Unhandled x, s)
                | Inr od \<Rightarrow>
                   (case insert_order s (case od of None \<Rightarrow> now | Some d \<Rightarrow> d) uid of
                      (Inl x, s') \<Rightarrow> (Unhandled x, s')
                    | (Inr new_order, s') \<Rightarrow>
                        (Response (dump_order E (Some new_order)) 201, s'))))))"

definition get_orders :: "env \<Rightarrow> store \<Rightarrow> int \<Rightarrow> response" where
  "get_orders E s user_id =
     (let found = filter (\<lambda>ord. o_user_id ord = user_id) (orders s)
      in if found = [] then Response (message ''No orders found for this user.'') 404
         else Response (JArr (map (\<lambda>ord. dump_order E (Some ord)) found)) 200)"

definition get_products_for_order :: "store \<Rightarrow> int \<Rightarrow> response" where
  "get_products_for_order s order_id =
     (case get_Order s order_id of
        None \<Rightarrow> Response (message ''Order not found'') 404
      | Some ord \<Rightarrow>
          (if Order_products s ord = []
           then Response (message ''No products found for this order'') 404
           else Response (JArr (map (\<lambda>p. dump_product (Some p)) (Order_products s ord))) 200))"

definition add_prod_to_order :: "env \<Rightarrow> store \<Rightarrow> int \<Rightarrow> int \<Rightarrow> response \<times> store" where
  "add_prod_to_order E s order_id product_id =
     (case get_Order s order_id of
        None \<Rightarrow> (Response (message ''Invalid order ID'') 400, s)
      | Some ord \<Rightarrow>
          (case get_Product s product_id of
             None \<Rightarrow> (Response (message ''Invalid product ID'') 400, s)
           | Some p \<Rightarrow>
               (if p \<in> set (Order_products s ord)
                then (Response (message ''Product already exists in the order'') 400, s)
                else (case insert_order_product s (o_id ord) (p_id p) of
                        Inl x \<Rightarrow> (Unhandled x, s)
                      | Inr s' \<Rightarrow> (Response (dump_order E (Some ord)) 200, s')))))"

definition remove_prod_from_order :: "store \<Rightarrow> int \<Rightarrow> int \<Rightarrow> response \<times> store" where
  "remove_prod_from_order s order_id product_id =
     (case get_Order s order_id of
        None \<Rightarrow> (Response (message ''Invalid order ID'') 400, s)
      | Some ord \<Rightarrow>
          (case get_Product s product_id of
             None \<Rightarrow> (Response (message ''Invalid product ID'') 400, s)
           | Some p \<Rightarrow>
               (if p \<notin> set (Order_products s ord)
                then (Response (message ''Product not found in the order'') 404, s)
                else (Response (message (''Product '' @ str_int product_id @
                                         '' removed from order '' @ str_int order_id)) 200,
                      delete_order_product s (o_id ord) (p_id p)))))"

subsection \<open>Products\<close>

definition create_product :: "env \<Rightarrow> store \<Rightarrow> json \<Rightarrow> response \<times> store" where
  "create_product E s body =
     (case load E ProductSchema body of
        Inl e \<Rightarrow> (Response (jsonify_messages e) 400, s)
      | Inr product_data \<Rightarrow>
          (case item_str product_data ''product_name'' of Inl x \<Rightarrow> (Unhandled x, s) | Inr n \<Rightarrow>
          (case item_float product_data ''price'' of Inl x \<Rightarrow> (Unhandled x, s) | Inr pr \<Rightarrow>
          (case insert_product s n pr of
             (Inl x, s') \<Rightarrow> (Unhandled x, s')
           | (Inr new_product, s') \<Rightarrow>
               (Response (dump_product (Some new_product)) 201, s')))))"

definition get_products :: "store \<Rightarrow> response" where
  "get_products s = Response (JArr (map (\<lambda>p. dump_product (Some p)) (products s))) 200"

definition get_product :: "store \<Rightarrow> int \<Rightarrow> response" where
  "get_product s i = Response (dump_product (get_Product s i)) 200"

definition update_product :: "env \<Rightarrow> store \<Rightarrow> int \<Rightarrow> json \<Rightarrow> response \<times> store" where
  "update_product E s i body =
     (case get_Product s i of
        None \<Rightarrow> (Response (message ''Product not found'') 404, s)
      | Some p \<Rightarrow>
          (case load E ProductSchema body of
             Inl e \<Rightarrow> (Response (jsonify_messages e) 400, s)
           | Inr product_data \<Rightarrow>
               (case item_str product_data ''product_name'' of Inl x \<Rightarrow> (Unhandled x, s)
                | Inr n \<Rightarrow>
               (case item_float product_data ''price'' of Inl x \<Rightarrow> (Unhandled x, s)
                | Inr pr \<Rightarrow>
               (let p' = p\<lparr>p_product_name := n, p_price := pr\<rparr>
                in (Response (dump_product (Some p')) 200, update_product_row s p'))))))"

definition delete_product :: "store \<Rightarrow> int \<Rightarrow> response \<times> store" where
  "delete_product s i =
     (case get_Product s i of
        None \<Rightarrow> (Response (message ''Product not found'') 404, s)
      | Some p \<Rightarrow>
          (if Product_orders s p \<noteq> []
           then (Response (message
                   ''Cannot delete product because it is associated with orders'') 400, s)
           else (case delete_product_row s p of
                   Inl x \<Rightarrow> (Unhandled x, s)
                 | Inr s' \<Rightarrow>
                     (Response (JArr [message (''Successfully deleted product '' @ str_int i),
                                      JInt 200]) 200, s'))))"

section \<open>The application as a state machine\<close>

text \<open>
  The routing table: one request for each \<open>@app.route\<close>.  A request to \<open>POST /orders\<close>
  carries the reading of the server's clock at that moment.
\<close>

datatype request =
    POST_users json
  | GET_users
  | GET_user int
  | PUT_user int json
  | DELETE_user int
  | POST_orders datetime json
  | GET_orders_user int
  | GET_order_products int
  | PUT_order_add_product int int
  | DELETE_order_remove_product int int
  | POST_products json
  | GET_products
  | GET_product int
  | PUT_product int json
  | DELETE_product int

fun dispatch :: "env \<Rightarrow> store \<Rightarrow> request \<Rightarrow> response \<times> store" where
  "dispatch E s (POST_users body) = create_user E s body"
| "dispatch E s GET_users = (get_users s, s)"
| "dispatch E s (GET_user i) = (get_user s i, s)"
| "dispatch E s (PUT_user i body) = update_user E s i body"
| "dispatch E s (DELETE_user i) = delete_user s i"
| "dispatch E s (POST_orders now body) = create_order E now s body"
| "dispatch E s (GET_orders_user i) = (get_orders E s i, s)"
| "dispatch E s (GET_order_products i) = (get_products_for_order s i, s)"
| "dispatch E s (PUT_order_add_product i j) = add_prod_to_order E s i j"
| "dispatch E s (DELETE_order_remove_product i j) = remove_prod_from_order s i j"
| "dispatch E s (POST_products body) = create_product E s body"
| "dispatch E s GET_products = (get_products s, s)"
| "dispatch E s (GET_product i) = (get_product s i, s)"
| "dispatch E s (PUT_product i body) = update_product E s i body"
| "dispatch E s (DELETE_product i) = delete_product s i"

text \<open>The database after a sequence of requests, served one after the other.\<close>

fun run :: "env \<Rightarrow> store \<Rightarrow> request list \<Rightarrow> store" where
  "run E s [] = s"
| "run E s (r # rs) = run E (snd (dispatch E s r)) rs"

text \<open>
  The constraints the tables declare, as a predicate on the database: the primary keys
  (with the auto-increment counters ahead of every key in use), the unique email, and the
  foreign keys.
\<close>

definition pk_ok :: "store \<Rightarrow> bool" where
  "pk_ok s = (distinct (map u_id (users s)) \<and> distinct (map o_id (orders s)) \<and>
              distinct (map p_id (products s)) \<and> distinct (order_product s))"

definition autoinc_ok :: "store \<Rightarrow> bool" where
  "autoinc_ok s = (list_all (\<lambda>u. u_id u < users_autoinc s) (users s) \<and>
                   list_all (\<lambda>ord. o_id ord < orders_autoinc s) (orders s) \<and>
                   list_all (\<lambda>p. p_id p < products_autoinc s) (products s))"

definition email_ok :: "env \<Rightarrow> store \<Rightarrow> bool" where
  "email_ok E s =
     list_all (\<lambda>u. list_all (\<lambda>v. u_id u = u_id v \<or> \<not> same_email E (u_email u) (u_email v))
                             (users s)) (users s)"

definition fk_ok :: "store \<Rightarrow> bool" where
  "fk_ok s = (list_all (\<lambda>ord. get_User s (o_user_id ord) \<noteq> None) (orders s) \<and>
              list_all (\<lambda>(a, b). get_Order s a \<noteq> None \<and> get_Product s b \<noteq> None)
                       (order_product s))"

definition store_ok :: "env \<Rightarrow> store \<Rightarrow> bool" where
  "store_ok E s = (pk_ok s \<and> autoinc_ok s \<and> email_ok E s \<and> fk_ok s)"

text \<open>
  The caller of the sixth testable property: every association that refers to product
  \<open>i\<close> is removed through \<open>DELETE /orders/<order_id>/remove_product/<i>\<close>.
\<close>

definition remove_all_associations :: "store \<Rightarrow> int \<Rightarrow> store" where
  "remove_all_associations s i =
     foldl (\<lambda>s' oid. snd (remove_prod_from_order s' oid i)) s
           (map fst (filter (\<lambda>(a, b). b = i) (order_product s)))"

section \<open>A concrete run\<close>

text \<open>
  An environment in which no string reads as a number or a timestamp, timestamps print as
  their number, and the collation of the email index is binary.
\<close>

definition plain_env :: env where
  "plain_env = \<lparr>int_of_str = (\<lambda>s. None), float_of_str = (\<lambda>s. None),
                 datetime_of_str = (\<lambda>s. None), isoformat = str_int,
                 collate = (\<lambda>a b. False)\<rparr>"

definition alice :: json where
  "alice = JObj [(''name'', JStr ''A''), (''address'', JStr ''X''), (''email'', JStr ''a@x.com'')]"

definition bob :: json where
  "bob = JObj [(''name'', JStr ''B''), (''address'', JStr ''Y''), (''email'', JStr ''b@y.com'')]"

definition widget :: json where
  "widget = JObj [(''product_name'', JStr ''Widget''), (''price'', JFloat (999 / 100))]"

text \<open>
  The end-to-end example of the specification: a customer, an order of that customer and a
  catalog item (\<open>stock\<close>), then the item added to the order (\<open>shop\<close>).
\<close>

text \<open>Two customers.\<close>

definition two_users :: store where
  "two_users = run plain_env empty_store [POST_users alice, POST_users bob]"

definition stock :: store where
  "stock = run plain_env empty_store
             [POST_users alice, POST_orders 1000 (JObj [(''user_id'', JInt 1)]),
              POST_products widget]"

definition shop :: store where
  "shop = run plain_env empty_store
            [POST_users alice, POST_orders 1000 (JObj [(''user_id'', JInt 1)]),
             POST_products widget, PUT_order_add_product 1 1]"

section \<open>Basic facts about the queries and the constraints\<close>

lemma get_User_None: "get_User s i = None \<longleftrightarrow> i \<notin> u_id ` set (users s)"
  by (auto simp: get_User_def find_None_iff)

lemma get_Order_None: "get_Order s i = None \<longleftrightarrow> i \<notin> o_id ` set (orders s)"
  by (auto simp: get_Order_def find_None_iff)

lemma get_Product_None: "get_Product s i = None \<longleftrightarrow> i \<notin> p_id ` set (products s)"
  by (auto simp: get_Product_def find_None_iff)

lemma get_User_Some: "get_User s i = Some u \<Longrightarrow> u \<in> set (users s) \<and> u_id u = i"
  by (auto simp: get_User_def find_Some_iff)

lemma get_Order_Some: "get_Order s i = Some ord \<Longrightarrow> ord \<in> set (orders s) \<and> o_id ord = i"
  by (auto simp: get_Order_def find_Some_iff)

lemma get_Product_Some: "get_Product s i = Some p \<Longrightarrow> p \<in> set (products s) \<and> p_id p = i"
  by (auto simp: get_Product_def find_Some_iff)

lemma in_Order_products:
  "p \<in> set (Order_products s ord) \<longleftrightarrow>
     p \<in> set (products s) \<and> (o_id ord, p_id p) \<in> set (order_product s)"
  by (auto simp: Order_products_def split: if_splits)

lemma in_Product_orders:
  "ord \<in> set (Product_orders s p) \<longleftrightarrow>
     ord \<in> set (orders s) \<and> (o_id ord, p_id p) \<in> set (order_product s)"
  by (auto simp: Product_orders_def split: if_splits)

subsection \<open>The constraints are kept\<close>

lemma store_ok_iff:
  "store_ok E s \<longleftrightarrow>
     distinct (map u_id (users s)) \<and> distinct (map o_id (orders s)) \<and>
     distinct (map p_id (products s)) \<and> distinct (order_product s) \<and>
     (\<forall>u \<in> set (users s). u_id u < users_autoinc s) \<and>
     (\<forall>ord \<in> set (orders s). o_id ord < orders_autoinc s) \<and>
     (\<forall>p \<in> set (products s). p_id p < products_autoinc s) \<and>
     (\<forall>u \<in> set (users s). \<forall>v \<in> set (users s).
         same_email E (u_email u) (u_email v) \<longrightarrow> u_id u = u_id v) \<and>
     (\<forall>ord \<in> set (orders s). o_user_id ord \<in> u_id ` set (users s)) \<and>
     (\<forall>(a, b) \<in> set (order_product s). a \<in> o_id ` set (orders s) \<and> b \<in> p_id ` set (products s))"
  unfolding store_ok_def pk_ok_def autoinc_ok_def email_ok_def fk_ok_def list_all_iff
    get_User_None get_Order_None get_Product_None
  by (simp only: not_not) blast

lemma same_email_sym: "same_email E a b \<Longrightarrow> same_email E b a"
  by (auto simp: same_email_def)

lemma map_id_update:
  "map f (map (\<lambda>u. if f u = f u' then u' else u) xs) = map f xs"
  by (induction xs) auto

lemma store_ok_empty_store: "store_ok E empty_store"
  by (simp add: store_ok_iff empty_store_def)

lemma store_ok_insert_user: "store_ok E s \<Longrightarrow> store_ok E (snd (insert_user E s n a e))"
  unfolding store_ok_iff insert_user_def Let_def list_ex_iff
  by (auto dest: same_email_sym) 

lemma set_update_cases:
  "x \<in> set (map (\<lambda>u. if f u = f u' then u' else u) xs) \<Longrightarrow> x = u' \<or> (x \<in> set xs \<and> f x \<noteq> f u')"
  by auto

lemma ids_update: "f ` set (map (\<lambda>u. if f u = f u' then u' else u) xs) = f ` set xs"
  using map_id_update [of f u' xs] by (metis set_map)

lemma store_ok_update_user_row:
  assumes ok: "store_ok E s" and upd: "update_user_row E s u' = Inr s'"
  shows "store_ok E s'"
proof -
  let ?xs' = "map (\<lambda>u. if u_id u = u_id u' then u' else u) (users s)"
  from upd have s': "s' = s\<lparr>users := ?xs'\<rparr>"
    and chk: "\<forall>u \<in> set (users s). u_id u \<noteq> u_id u' \<longrightarrow> \<not> same_email E (u_email u) (u_email u')"
    by (auto simp: update_user_row_def list_ex_iff split: if_splits)
  have ids: "u_id ` set ?xs' = u_id ` set (users s)" by (rule ids_update)
  have d: "distinct (map u_id ?xs')" using ok by (simp only: map_id_update store_ok_iff)
  have a: "\<forall>u \<in> set ?xs'. u_id u < users_autoinc s"
  proof
    fix u assume "u \<in> set ?xs'"
    then have "u_id u \<in> u_id ` set (users s)" using ids by blast
    then show "u_id u < users_autoinc s" using ok by (auto simp: store_ok_iff)
  qed
  have e: "\<forall>u \<in> set ?xs'. \<forall>v \<in> set ?xs'. same_email E (u_email u) (u_email v) \<longrightarrow> u_id u = u_id v"
  proof (intro ballI impI)
    fix u v assume u: "u \<in> set ?xs'" and v: "v \<in> set ?xs'"
      and se: "same_email E (u_email u) (u_email v)"
    from u have cu: "u = u' \<or> (u \<in> set (users s) \<and> u_id u \<noteq> u_id u')" by (rule set_update_cases)
    from v have cv: "v = u' \<or> (v \<in> set (users s) \<and> u_id v \<noteq> u_id u')" by (rule set_update_cases)
    from cu cv se chk ok show "u_id u = u_id v"
      unfolding store_ok_iff by (metis same_email_sym)
  qed
  have f: "\<forall>ord \<in> set (orders s). o_user_id ord \<in> u_id ` set ?xs'"
    using ok unfolding store_ok_iff ids by blast
  have sel: "users s' = ?xs'" "orders s' = orders s" "products s' = products s"
    "order_product s' = order_product s" "users_autoinc s' = users_autoinc s"
    "orders_autoinc s' = orders_autoinc s" "products_autoinc s' = products_autoinc s"
    by (simp_all add: s')
  from ok have ok': "distinct (map o_id (orders s))" "distinct (map p_id (products s))"
    "distinct (order_product s)"
    "\<forall>ord \<in> set (orders s). o_id ord < orders_autoinc s"
    "\<forall>p \<in> set (products s). p_id p < products_autoinc s"
    "\<forall>(a, b) \<in> set (order_product s). a \<in> o_id ` set (orders s) \<and> b \<in> p_id ` set (products s)"
    unfolding store_ok_iff by blast+
  show ?thesis unfolding store_ok_iff sel
    by (intro conjI) (fact d a e f ok')+
qed

lemma in_image_filter: "y \<in> f ` set xs \<Longrightarrow> y \<noteq> c \<Longrightarrow> y \<in> f ` set (filter (\<lambda>x. f x \<noteq> c) xs)"
  by auto

lemma ball_ids_update:
  "(\<forall>x \<in> set (map (\<lambda>u. if f u = f u' then u' else u) xs). P (f x)) = (\<forall>x \<in> set xs. P (f x))"
  by (induction xs) auto

lemma store_ok_delete_user_row:
  assumes ok: "store_ok E s" and del: "delete_user_row s u = Inr s'"
  shows "store_ok E s'"
proof -
  from del have s': "s' = s\<lparr>users := filter (\<lambda>v. u_id v \<noteq> u_id u) (users s)\<rparr>"
    and chk: "\<forall>ord \<in> set (orders s). o_user_id ord \<noteq> u_id u"
    by (auto simp: delete_user_row_def User_orders_def filter_empty_conv split: if_splits)
  have f: "\<forall>ord \<in> set (orders s). o_user_id ord \<in> u_id ` set (filter (\<lambda>v. u_id v \<noteq> u_id u) (users s))"
    using ok chk unfolding store_ok_iff by (blast intro: in_image_filter)
  show ?thesis using ok f unfolding store_ok_iff s'
    by (simp add: distinct_map_filter)
qed

lemma less_succ_int: "\<forall>x \<in> set xs. f x < (c::int) \<Longrightarrow> \<forall>x \<in> set xs. f x \<le> c"
  by auto

lemma store_ok_insert_order:
  assumes ok: "store_ok E s"
  shows "store_ok E (snd (insert_order s d uid))"
proof (cases "list_ex (\<lambda>ord. o_id ord = orders_autoinc s) (orders s) \<or> get_User s uid = None")
  case True
  then have s': "snd (insert_order s d uid) = s\<lparr>orders_autoinc := orders_autoinc s + 1\<rparr>"
    by (simp add: insert_order_def Let_def)
  have a: "\<forall>ord \<in> set (orders s). o_id ord \<le> orders_autoinc s"
    using ok unfolding store_ok_iff by (intro less_succ_int) blast
  show ?thesis using ok a unfolding s' store_ok_iff
    by simp
next
  case False
  then have s': "snd (insert_order s d uid) =
      s\<lparr>orders_autoinc := orders_autoinc s + 1,
        orders := orders s @ [\<lparr>o_id = orders_autoinc s, o_order_date = d, o_user_id = uid\<rparr>]\<rparr>"
    and fresh: "orders_autoinc s \<notin> o_id ` set (orders s)"
    and u: "uid \<in> u_id ` set (users s)"
    by (auto simp: insert_order_def Let_def list_ex_iff get_User_None)
  have f: "\<forall>(a, b) \<in> set (order_product s). (a = orders_autoinc s \<or> a \<in> o_id ` set (orders s)) \<and> b \<in> p_id ` set (products s)"
    using ok unfolding store_ok_iff by blast
  have a: "\<forall>ord \<in> set (orders s). o_id ord \<le> orders_autoinc s"
    using ok unfolding store_ok_iff by (intro less_succ_int) blast
  show ?thesis using ok fresh u f a unfolding s' store_ok_iff
    by simp
qed

lemma store_ok_insert_order_product:
  "store_ok E s \<Longrightarrow> insert_order_product s a b = Inr s' \<Longrightarrow> store_ok E s'"
  unfolding store_ok_iff insert_order_product_def get_Order_None get_Product_None
  by (auto split: if_splits)

lemma store_ok_delete_order_product:
  "store_ok E s \<Longrightarrow> store_ok E (delete_order_product s a b)"
  unfolding store_ok_iff delete_order_product_def
  by auto

lemma store_ok_insert_product:
  assumes ok: "store_ok E s"
  shows "store_ok E (snd (insert_product s n pr))"
proof (cases "list_ex (\<lambda>p. p_id p = products_autoinc s) (products s)")
  case True
  then have s': "snd (insert_product s n pr) = s\<lparr>products_autoinc := products_autoinc s + 1\<rparr>"
    by (simp add: insert_product_def Let_def)
  have a: "\<forall>p \<in> set (products s). p_id p \<le> products_autoinc s"
    using ok unfolding store_ok_iff by (intro less_succ_int) blast
  show ?thesis using ok a unfolding s' store_ok_iff
    by simp
next
  case False
  then have s': "snd (insert_product s n pr) =
      s\<lparr>products_autoinc := products_autoinc s + 1,
        products := products s @ [\<lparr>p_id = products_autoinc s, p_product_name = n, p_price = pr\<rparr>]\<rparr>"
    and fresh: "products_autoinc s \<notin> p_id ` set (products s)"
    by (auto simp: insert_product_def Let_def list_ex_iff)
  have f: "\<forall>(a, b) \<in> set (order_product s). a \<in> o_id ` set (orders s) \<and> (b = products_autoinc s \<or> b \<in> p_id ` set (products s))"
    using ok unfolding store_ok_iff by blast
  have a: "\<forall>p \<in> set (products s). p_id p \<le> products_autoinc s"
    using ok unfolding store_ok_iff by (intro less_succ_int) blast
  show ?thesis using ok fresh f a unfolding s' store_ok_iff
    by simp
qed

lemma store_ok_update_product_row:
  assumes ok: "store_ok E s"
  shows "store_ok E (update_product_row s p')"
proof -
  let ?xs' = "map (\<lambda>p. if p_id p = p_id p' then p' else p) (products s)"
  have ids: "p_id ` set ?xs' = p_id ` set (products s)" by (rule ids_update)
  have d: "distinct (map p_id ?xs')" using ok by (simp only: map_id_update store_ok_iff)
  have a: "\<forall>p \<in> set ?xs'. p_id p < products_autoinc s"
    using ok unfolding store_ok_iff ball_ids_update [where P = "\<lambda>i. i < products_autoinc s"]
    by blast
  have f: "\<forall>(a, b) \<in> set (order_product s). a \<in> o_id ` set (orders s) \<and> b \<in> p_id ` set ?xs'"
    using ok unfolding store_ok_iff ids by blast
  have s': "update_product_row s p' = s\<lparr>products := ?xs'\<rparr>"
    by (simp add: update_product_row_def)
  show ?thesis using ok d a f unfolding s' store_ok_iff
    by (simp del: set_map map_map)
qed

lemma store_ok_delete_product_row:
  assumes ok: "store_ok E s" and del: "delete_product_row s p = Inr s'"
  shows "store_ok E s'"
proof -
  define rest where "rest = filter (\<lambda>(a, b). \<not> (b = p_id p \<and> a \<in> set (map o_id (Product_orders s p))))
                                   (order_product s)"
  from del have s': "s' = s\<lparr>products := filter (\<lambda>q. p_id q \<noteq> p_id p) (products s),
                              order_product := rest\<rparr>"
    and chk: "\<forall>(a, b) \<in> set rest. b \<noteq> p_id p"
    by (auto simp: delete_product_row_def Let_def list_ex_iff rest_def split: if_splits)
  have sub: "set rest \<subseteq> set (order_product s)" by (auto simp: rest_def)
  have d: "distinct rest" using ok by (simp add: rest_def store_ok_iff)
  have f: "\<forall>(a, b) \<in> set rest. a \<in> o_id ` set (orders s) \<and>
              b \<in> p_id ` set (filter (\<lambda>q. p_id q \<noteq> p_id p) (products s))"
  proof (clarify)
    fix a b assume ab: "(a, b) \<in> set rest"
    then have "b \<noteq> p_id p" using chk by blast
    moreover have "a \<in> o_id ` set (orders s) \<and> b \<in> p_id ` set (products s)"
      using ab sub ok unfolding store_ok_iff by blast
    ultimately show "a \<in> o_id ` set (orders s) \<and>
              b \<in> p_id ` set (filter (\<lambda>q. p_id q \<noteq> p_id p) (products s))"
      by auto
  qed
  show ?thesis using ok d f unfolding store_ok_iff s'
    by (simp add: distinct_map_filter)
qed

text \<open>Every route keeps the constraints, and so does any sequence of requests.\<close>

lemma store_ok_insert_user': "insert_user E s n a e = (r, s') \<Longrightarrow> store_ok E s \<Longrightarrow> store_ok E s'"
  using store_ok_insert_user [of E s n a e] by simp

lemma store_ok_insert_order': "insert_order s d uid = (r, s') \<Longrightarrow> store_ok E s \<Longrightarrow> store_ok E s'"
  using store_ok_insert_order [of E s d uid] by simp

lemma store_ok_insert_product': "insert_product s n pr = (r, s') \<Longrightarrow> store_ok E s \<Longrightarrow> store_ok E s'"
  using store_ok_insert_product [of E s n pr] by simp

lemma store_ok_create_user: "store_ok E s \<Longrightarrow> store_ok E (snd (create_user E s body))"
  by (auto simp: create_user_def split: sum.splits prod.splits dest: store_ok_insert_user')

lemma store_ok_update_user: "store_ok E s \<Longrightarrow> store_ok E (snd (update_user E s i body))"
  by (auto simp: update_user_def Let_def split: sum.splits option.splits
      dest: store_ok_update_user_row)

lemma store_ok_delete_user: "store_ok E s \<Longrightarrow> store_ok E (snd (delete_user s i))"
  by (auto simp: delete_user_def split: sum.splits option.splits dest: store_ok_delete_user_row)

lemma store_ok_create_order: "store_ok E s \<Longrightarrow> store_ok E (snd (create_order E now s body))"
  by (auto simp: create_order_def split: sum.splits prod.splits option.splits
      dest: store_ok_insert_order')

lemma store_ok_add_prod_to_order:
  "store_ok E s \<Longrightarrow> store_ok E (snd (add_prod_to_order E s i j))"
  by (auto simp: add_prod_to_order_def split: sum.splits option.splits
      dest: store_ok_insert_order_product)

lemma store_ok_remove_prod_from_order:
  "store_ok E s \<Longrightarrow> store_ok E (snd (remove_prod_from_order s i j))"
  by (auto simp: remove_prod_from_order_def split: option.splits
      intro: store_ok_delete_order_product)

lemma store_ok_create_product: "store_ok E s \<Longrightarrow> store_ok E (snd (create_product E s body))"
  by (auto simp: create_product_def split: sum.splits prod.splits dest: store_ok_insert_product')

lemma store_ok_update_product: "store_ok E s \<Longrightarrow> store_ok E (snd (update_product E s i body))"
  by (auto simp: update_product_def Let_def split: sum.splits option.splits
      intro: store_ok_update_product_row)

lemma store_ok_delete_product: "store_ok E s \<Longrightarrow> store_ok E (snd (delete_product s i))"
  by (auto simp: delete_product_def split: sum.splits option.splits
      dest: store_ok_delete_product_row)

lemma store_ok_dispatch: "store_ok E s \<Longrightarrow> store_ok E (snd (dispatch E s r))"
  by (cases r)
    (simp_all add: store_ok_create_user store_ok_update_user store_ok_delete_user
      store_ok_create_order store_ok_add_prod_to_order store_ok_remove_prod_from_order
      store_ok_create_product store_ok_update_product store_ok_delete_product)

lemma store_ok_run: "store_ok E s \<Longrightarrow> store_ok E (run E s rs)"
  by (induction rs arbitrary: s) (simp_all add: store_ok_dispatch)

subsection \<open>Evaluating concrete requests\<close>

text \<open>The definitions to unfold when a concrete request is evaluated.\<close>

lemmas eval_defs = load_def UserSchema_def OrderSchema_def ProductSchema_def unknown_fields_def
  item_str_def item_int_def item_float_def get_datetime_def
  get_User_def get_Order_def get_Product_def Order_products_def Product_orders_def User_orders_def
  insert_user_def insert_order_def insert_product_def insert_order_product_def
  update_user_row_def update_product_row_def delete_user_row_def delete_product_row_def
  delete_order_product_def same_email_def py_float_def float_of_nat_def
  create_user_def update_user_def delete_user_def create_order_def add_prod_to_order_def
  remove_prod_from_order_def create_product_def update_product_def delete_product_def
  plain_env_def empty_store_def alice_def bob_def widget_def Let_def

lemma two_users_eq:
  "two_users =
     \<lparr>users = [\<lparr>u_id = 1, u_name = ''A'', u_address = ''X'', u_email = ''a@x.com''\<rparr>,
               \<lparr>u_id = 2, u_name = ''B'', u_address = ''Y'', u_email = ''b@y.com''\<rparr>],
      orders = [], products = [], order_product = [],
      users_autoinc = 3, orders_autoinc = 1, products_autoinc = 1\<rparr>"
  unfolding two_users_def by (simp add: eval_defs)

lemma stock_eq:
  "stock = \<lparr>users = [\<lparr>u_id = 1, u_name = ''A'', u_address = ''X'', u_email = ''a@x.com''\<rparr>],
             orders = [\<lparr>o_id = 1, o_order_date = 1000, o_user_id = 1\<rparr>],
             products = [\<lparr>p_id = 1, p_product_name = ''Widget'', p_price = 999 / 100\<rparr>],
             order_product = [],
             users_autoinc = 2, orders_autoinc = 2, products_autoinc = 2\<rparr>"
  unfolding stock_def by (simp add: eval_defs)

lemma shop_eq:
  "shop = \<lparr>users = [\<lparr>u_id = 1, u_name = ''A'', u_address = ''X'', u_email = ''a@x.com''\<rparr>],
            orders = [\<lparr>o_id = 1, o_order_date = 1000, o_user_id = 1\<rparr>],
            products = [\<lparr>p_id = 1, p_product_name = ''Widget'', p_price = 999 / 100\<rparr>],
            order_product = [(1, 1)],
            users_autoinc = 2, orders_autoinc = 2, products_autoinc = 2\<rparr>"
  unfolding shop_def by (simp add: eval_defs)

subsection \<open>Adding and removing an association\<close>

lemma get_order_product_upd [simp]:
  "get_Order (s\<lparr>order_product := x\<rparr>) i = get_Order s i"
  "get_Product (s\<lparr>order_product := x\<rparr>) i = get_Product s i"
  "get_User (s\<lparr>order_product := x\<rparr>) i = get_User s i"
  by (simp_all add: get_Order_def get_Product_def get_User_def)

lemma add_prod_to_order_new:
  assumes "get_Order s oid = Some ord" and "get_Product s pid = Some p"
    and "(oid, pid) \<notin> set (order_product s)"
  shows "add_prod_to_order E s oid pid =
           (Response (dump_order E (Some ord)) 200,
            s\<lparr>order_product := order_product s @ [(oid, pid)]\<rparr>)"
  using assms get_Order_Some [OF assms(1)] get_Product_Some [OF assms(2)]
  by (simp add: add_prod_to_order_def in_Order_products insert_order_product_def)

lemma add_prod_to_order_old:
  assumes "get_Order s oid = Some ord" and "get_Product s pid = Some p"
    and "(oid, pid) \<in> set (order_product s)"
  shows "add_prod_to_order E s oid pid =
           (Response (message ''Product already exists in the order'') 400, s)"
  using assms get_Order_Some [OF assms(1)] get_Product_Some [OF assms(2)]
  by (simp add: add_prod_to_order_def in_Order_products)

lemma remove_prod_from_order_old:
  assumes "get_Order s oid = Some ord" and "get_Product s pid = Some p"
    and "(oid, pid) \<in> set (order_product s)"
  shows "remove_prod_from_order s oid pid =
           (Response (message (''Product '' @ str_int pid @ '' removed from order '' @ str_int oid)) 200,
            s\<lparr>order_product := filter (\<lambda>r. r \<noteq> (oid, pid)) (order_product s)\<rparr>)"
  using assms get_Order_Some [OF assms(1)] get_Product_Some [OF assms(2)]
  by (simp add: remove_prod_from_order_def in_Order_products delete_order_product_def)

lemma remove_prod_from_order_new:
  assumes "get_Order s oid = Some ord" and "get_Product s pid = Some p"
    and "(oid, pid) \<notin> set (order_product s)"
  shows "remove_prod_from_order s oid pid =
           (Response (message ''Product not found in the order'') 404, s)"
  using assms get_Order_Some [OF assms(1)] get_Product_Some [OF assms(2)]
  by (simp add: remove_prod_from_order_def in_Order_products)

lemma add_then_remove_store:
  assumes o: "get_Order s oid = Some ord" and p: "get_Product s pid = Some p"
  shows "snd (remove_prod_from_order (snd (add_prod_to_order E s oid pid)) oid pid) =
           s\<lparr>order_product := filter (\<lambda>r. r \<noteq> (oid, pid)) (order_product s)\<rparr>"
proof (cases "(oid, pid) \<in> set (order_product s)")
  case True
  then show ?thesis
    by (simp add: add_prod_to_order_old [OF o p] remove_prod_from_order_old [OF o p])
next
  case False
  let ?s1 = "s\<lparr>order_product := order_product s @ [(oid, pid)]\<rparr>"
  have o1: "get_Order ?s1 oid = Some ord" and p1: "get_Product ?s1 pid = Some p"
    using o p by simp_all
  have in1: "(oid, pid) \<in> set (order_product ?s1)" by simp
  show ?thesis
    by (simp add: add_prod_to_order_new [OF o p False] remove_prod_from_order_old [OF o1 p1 in1])
qed

lemma Order_products_no_row:
  "(o_id ord, pid) \<notin> set (order_product s) \<Longrightarrow> pid \<notin> p_id ` set (Order_products s ord)"
  by (auto simp: in_Order_products)

lemma filter_key_distinct:
  "distinct (map f xs) \<Longrightarrow> x \<in> set xs \<Longrightarrow> filter (\<lambda>q. f q = f x) xs = [x]"
proof (induction xs)
  case Nil
  then show ?case by simp
next
  case (Cons y ys)
  show ?case
  proof (cases "y = x")
    case True
    have "f x \<notin> f ` set ys" using Cons.prems(1) True by simp
    then have "\<forall>q \<in> set ys. f q \<noteq> f x" by (metis imageI)
    then have "filter (\<lambda>q. f q = f x) ys = []"
      by (simp add: filter_empty_conv)
    then show ?thesis using True by simp
  next
    case False
    then have "x \<in> set ys" using Cons.prems(2) by simp
    moreover have "f y \<noteq> f x" using Cons.prems(1) \<open>x \<in> set ys\<close> by auto
    ultimately show ?thesis using Cons by simp
  qed
qed

lemma count_list_distinct: "distinct xs \<Longrightarrow> x \<in> set xs \<Longrightarrow> count_list xs x = 1"
  by (induction xs) auto

lemma length_filter_join:
  assumes "distinct (map p_id prods)" and "p \<in> set prods"
  shows "length (filter (\<lambda>q. p_id q = p_id p)
           (concat (map (\<lambda>(a, b). if a = oid then filter (\<lambda>q. p_id q = b) prods else []) xs))) =
         count_list xs (oid, p_id p)"
proof (induction xs)
  case Nil
  then show ?case by simp
next
  case (Cons r rs)
  obtain a b where r: "r = (a, b)" by (cases r)
  have one: "filter (\<lambda>q. p_id q = p_id p) prods = [p]"
    using assms by (rule filter_key_distinct)
  have "length (filter (\<lambda>q. p_id q = p_id p) (if a = oid then filter (\<lambda>q. p_id q = b) prods else [])) =
        (if (a, b) = (oid, p_id p) then 1 else 0)"
  proof (cases "a = oid \<and> b = p_id p")
    case True
    then show ?thesis using one by simp
  next
    case False
    have "filter (\<lambda>q. p_id q = p_id p \<and> p_id q = b) prods = []" if "b \<noteq> p_id p"
      using that by (auto simp: filter_empty_conv)
    then show ?thesis using False by auto
  qed
  then show ?case using Cons.IH by (simp add: r)
qed

lemma Order_products_count:
  assumes "distinct (map p_id (products s))" and "p \<in> set (products s)"
  shows "length (filter (\<lambda>q. p_id q = p_id p) (Order_products s ord)) =
         count_list (order_product s) (o_id ord, p_id p)"
  unfolding Order_products_def using assms by (rule length_filter_join)

subsection \<open>Deleting a product\<close>

lemma remove_prod_from_order_store:
  assumes ok: "store_ok E s" and p: "get_Product s pid = Some p"
  shows "snd (remove_prod_from_order s oid pid) =
           s\<lparr>order_product := filter (\<lambda>r. r \<noteq> (oid, pid)) (order_product s)\<rparr>"
proof (cases "(oid, pid) \<in> set (order_product s)")
  case True
  then have "oid \<in> o_id ` set (orders s)" using ok unfolding store_ok_iff by blast
  then obtain ord where o: "get_Order s oid = Some ord"
    using get_Order_None [of s oid] by (cases "get_Order s oid") auto
  show ?thesis by (simp add: remove_prod_from_order_old [OF o p True])
next
  case False
  then have id: "filter (\<lambda>r. r \<noteq> (oid, pid)) (order_product s) = order_product s"
    by (auto simp: filter_id_conv)
  have "snd (remove_prod_from_order s oid pid) = s"
  proof (cases "get_Order s oid")
    case None
    then show ?thesis by (simp add: remove_prod_from_order_def)
  next
    case (Some ord)
    show ?thesis by (simp add: remove_prod_from_order_new [OF Some p False])
  qed
  then show ?thesis by (simp add: id)
qed

lemma remove_all_fold:
  assumes "store_ok E s" and "get_Product s pid = Some p"
  shows "foldl (\<lambda>s' oid. snd (remove_prod_from_order s' oid pid)) s os =
           s\<lparr>order_product := filter (\<lambda>r. r \<notin> (\<lambda>oid. (oid, pid)) ` set os) (order_product s)\<rparr>"
  using assms
proof (induction os arbitrary: s)
  case Nil
  then show ?case by simp
next
  case (Cons a os)
  let ?s1 = "s\<lparr>order_product := filter (\<lambda>r. r \<noteq> (a, pid)) (order_product s)\<rparr>"
  have s1: "snd (remove_prod_from_order s a pid) = ?s1"
    using Cons.prems by (rule remove_prod_from_order_store)
  have ok1: "store_ok E ?s1"
    using store_ok_remove_prod_from_order [OF Cons.prems(1), of a pid] by (simp only: s1)
  have p1: "get_Product ?s1 pid = Some p" using Cons.prems(2) by simp
  have "foldl (\<lambda>s' oid. snd (remove_prod_from_order s' oid pid)) ?s1 os =
        ?s1\<lparr>order_product := filter (\<lambda>r. r \<notin> (\<lambda>oid. (oid, pid)) ` set os) (order_product ?s1)\<rparr>"
    using ok1 p1 by (rule Cons.IH)
  moreover have "filter (\<lambda>r. r \<notin> (\<lambda>oid. (oid, pid)) ` set os) (filter (\<lambda>r. r \<noteq> (a, pid)) (order_product s)) =
        filter (\<lambda>r. r \<notin> (\<lambda>oid. (oid, pid)) ` set (a # os)) (order_product s)"
    by (auto intro: filter_cong)
  ultimately show ?case by (simp add: s1)
qed

lemma remove_all_associations_store:
  assumes "store_ok E s" and "get_Product s pid = Some p"
  shows "remove_all_associations s pid =
           s\<lparr>order_product := filter (\<lambda>(a, b). b \<noteq> pid) (order_product s)\<rparr>"
proof -
  have "filter (\<lambda>r. r \<notin> (\<lambda>oid. (oid, pid)) ` set (map fst (filter (\<lambda>(a, b). b = pid) (order_product s))))
          (order_product s) = filter (\<lambda>(a, b). b \<noteq> pid) (order_product s)"
    by (rule filter_cong) (auto simp: image_iff)
  then show ?thesis
    unfolding remove_all_associations_def by (simp add: remove_all_fold [OF assms])
qed

lemma delete_product_free:
  assumes p: "get_Product s i = Some p" and free: "\<forall>oid. (oid, i) \<notin> set (order_product s)"
  shows "delete_product s i =
           (Response (JArr [message (''Successfully deleted product '' @ str_int i), JInt 200]) 200,
            s\<lparr>products := filter (\<lambda>q. p_id q \<noteq> i) (products s)\<rparr>)"
proof -
  have pid: "p_id p = i" using get_Product_Some [OF p] by simp
  have none: "Product_orders s p = []"
  proof (rule ccontr)
    assume "Product_orders s p \<noteq> []"
    then obtain ord where "ord \<in> set (Product_orders s p)" by (cases "Product_orders s p") auto
    then show False using free by (simp add: in_Product_orders pid)
  qed
  have rest: "filter (\<lambda>(a, b). \<not> (b = i \<and> a \<in> set (map o_id []))) (order_product s) = order_product s"
    by (simp add: filter_id_conv)
  have nex: "\<not> list_ex (\<lambda>(a, b). b = i) (order_product s)"
    using free by (auto simp: list_ex_iff)
  have "delete_product_row s p = Inr (s\<lparr>products := filter (\<lambda>q. p_id q \<noteq> i) (products s)\<rparr>)"
    using nex by (simp add: delete_product_row_def none pid)
  then show ?thesis by (simp add: delete_product_def p none)
qed

lemma delete_product_referenced:
  assumes ok: "store_ok E s" and p: "get_Product s i = Some p"
    and ref: "(oid, i) \<in> set (order_product s)"
  shows "delete_product s i =
           (Response (message ''Cannot delete product because it is associated with orders'') 400, s)"
proof -
  have pid: "p_id p = i" using get_Product_Some [OF p] by simp
  have "oid \<in> o_id ` set (orders s)" using ok ref unfolding store_ok_iff by blast
  then obtain ord where "ord \<in> set (orders s)" and "o_id ord = oid" by auto
  then have "ord \<in> set (Product_orders s p)" using ref by (simp add: in_Product_orders pid)
  then have "Product_orders s p \<noteq> []" by auto
  then show ?thesis by (simp add: delete_product_def p)
qed

lemma store_ok_stock: "store_ok plain_env stock"
  unfolding stock_def by (rule store_ok_run [OF store_ok_empty_store])

lemma store_ok_shop: "store_ok plain_env shop"
  unfolding shop_def by (rule store_ok_run [OF store_ok_empty_store])

subsection \<open>Converting an integer to a float\<close>


lemma bit_length_eq: "2 ^ k \<le> n \<Longrightarrow> n < 2 ^ Suc k \<Longrightarrow> bit_length n = Suc k"
proof (induction k arbitrary: n)
  case 0
  then have "n = 1" by simp
  then show ?case by (simp add: bit_length.simps)
next
  case (Suc k)
  have "2 ^ k \<le> n div 2" using Suc.prems(1) by simp
  moreover have "n div 2 < 2 ^ Suc k" using Suc.prems(2) by simp
  ultimately have "bit_length (n div 2) = Suc k" by (rule Suc.IH)
  moreover have "n \<noteq> 0" using Suc.prems(1) by (cases "n = 0") simp_all
  ultimately show ?case by (subst bit_length.simps) simp
qed





lemma py_float_nat: "py_float (int n) = float_of_nat n"
  by (simp add: py_float_def)

lemma float_of_nat_rounded:
  assumes "2 ^ 53 \<le> n" and "bit_length n = b" and "round_half_even n (b - 53) = m"
    and "m < 2 ^ 1024"
  shows "float_of_nat n = Some (real m)"
  using assms by (simp add: float_of_nat_def Let_def)

lemma float_of_nat_overflow:
  assumes "2 ^ 53 \<le> n" and "bit_length n = b" and "2 ^ 1024 \<le> round_half_even n (b - 53)"
  shows "float_of_nat n = None"
  using assms by (simp add: float_of_nat_def Let_def)

text \<open>Two conversions beyond the exact range: a tie rounded to even, and an overflow.\<close>

lemma py_float_rounds: "py_float (2 ^ 53 + 1) = Some (2 ^ 53)"
proof -
  have b: "bit_length (2 ^ 53 + 1) = Suc 53" by (rule bit_length_eq) simp_all
  have r: "round_half_even (2 ^ 53 + 1) (Suc 53 - 53) = 2 ^ 53"
    by (simp add: round_half_even_def Let_def)
  have "float_of_nat (2 ^ 53 + 1) = Some (real (2 ^ 53))"
    by (rule float_of_nat_rounded [OF _ b r]) simp_all
  moreover have "(2::int) ^ 53 + 1 = int (2 ^ 53 + 1)" by simp
  ultimately show ?thesis by (simp only: py_float_nat) simp
qed

lemma py_float_overflows: "py_float (10 ^ 309) = None"
proof -
  have b: "bit_length (10 ^ 309) = Suc 1026" by (rule bit_length_eq) simp_all
  have r: "(2::nat) ^ 1024 \<le> round_half_even (10 ^ 309) (Suc 1026 - 53)"
    by (simp add: round_half_even_def Let_def)
  have "float_of_nat (10 ^ 309) = None"
    by (rule float_of_nat_overflow [OF _ b r]) simp
  moreover have "(10::int) ^ 309 = int (10 ^ 309)" by simp
  ultimately show ?thesis by (simp only: py_float_nat)
qed

lemma deserialize_too_large: "deserialize E Float (JInt (10 ^ 309)) = Inl ''Number too large.''"
  by (simp only: deserialize.simps py_float_overflows option.case)

subsection \<open>What validation returns\<close>

text \<open>
  A dict that \<open>load\<close> returns holds every required field of the schema, with a value
  of the kind of the field: the view functions never raise \<open>KeyError\<close> on one.
\<close>

lemma deserialize_kind:
  assumes "deserialize E k j = Inr v"
  shows "(case k of Integer \<Rightarrow> \<exists>x. v = VInt x | Float \<Rightarrow> \<exists>x. v = VFloat x
          | String n \<Rightarrow> \<exists>x. v = VStr x | DateTime \<Rightarrow> \<exists>x. v = VDateTime x)"
  using assms by (cases k; cases j) (auto split: option.splits if_splits)

lemma load_fields_required:
  assumes "load_fields E kvs schema = ([], vals)" and "(name, kind, True) \<in> set schema"
    and "distinct (map fst schema)"
  shows "\<exists>j v. map_of kvs name = Some j \<and> deserialize E kind j = Inr v \<and> map_of vals name = Some v"
  using assms
proof (induction schema arbitrary: vals)
  case Nil
  then show ?case by simp
next
  case (Cons f fs)
  obtain n0 k0 r0 where f: "f = (n0, k0, r0)" by (cases f)
  obtain errs' vals' where rec: "load_fields E kvs fs = (errs', vals')"
    by (cases "load_fields E kvs fs")
  from Cons.prems(1) have e': "errs' = []"
    by (auto simp: f rec split: option.splits sum.splits if_splits)
  show ?case
  proof (cases "(name, kind, True) = f")
    case True
    then have eq: "n0 = name" "k0 = kind" "r0 = True" using f by simp_all
    from Cons.prems(1) show ?thesis
      by (auto simp: f rec eq split: option.splits sum.splits)
  next
    case False
    then have mem: "(name, kind, True) \<in> set fs" using Cons.prems(2) by simp
    have d: "distinct (map fst fs)" using Cons.prems(3) by simp
    have ne: "name \<noteq> n0" using Cons.prems(3) mem by (force simp: f)
    from Cons.IH [OF _ mem d] rec e'
    obtain j v where jv: "map_of kvs name = Some j" "deserialize E kind j = Inr v"
      "map_of vals' name = Some v" by blast
    have "map_of vals name = map_of vals' name"
      using Cons.prems(1) ne by (auto simp: f rec split: option.splits sum.splits if_splits)
    then show ?thesis using jv by simp
  qed
qed

lemma load_Inr:
  assumes "load E schema body = Inr d"
  shows "\<exists>kvs. body = JObj kvs \<and> load_fields E kvs schema = ([], d) \<and> unknown_fields kvs schema = []"
  using assms
  by (cases body) (auto simp: load_def Let_def split: prod.splits if_splits)

lemma load_required:
  assumes "load E schema body = Inr d" and "(name, kind, True) \<in> set schema"
    and "distinct (map fst schema)"
  shows "\<exists>v. (\<exists>j. deserialize E kind j = Inr v) \<and> map_of d name = Some v"
proof -
  from load_Inr [OF assms(1)] obtain kvs where "load_fields E kvs schema = ([], d)" by blast
  from load_fields_required [OF this assms(2,3)] show ?thesis by blast
qed

lemma load_str:
  assumes "load E schema body = Inr d" and "(name, String n, True) \<in> set schema"
    and "distinct (map fst schema)"
  shows "\<exists>x. map_of d name = Some (VStr x)"
proof -
  from load_required [OF assms] obtain v j where
    "deserialize E (String n) j = Inr v" and m: "map_of d name = Some v" by blast
  from deserialize_kind [OF this(1)] m show ?thesis by auto
qed

lemma load_float:
  assumes "load E schema body = Inr d" and "(name, Float, True) \<in> set schema"
    and "distinct (map fst schema)"
  shows "\<exists>x. map_of d name = Some (VFloat x)"
proof -
  from load_required [OF assms] obtain v j where
    "deserialize E Float j = Inr v" and m: "map_of d name = Some v" by blast
  from deserialize_kind [OF this(1)] m show ?thesis by auto
qed

lemma load_int:
  assumes "load E schema body = Inr d" and "(name, Integer, True) \<in> set schema"
    and "distinct (map fst schema)"
  shows "\<exists>x. map_of d name = Some (VInt x)"
proof -
  from load_required [OF assms] obtain v j where
    "deserialize E Integer j = Inr v" and m: "map_of d name = Some v" by blast
  from deserialize_kind [OF this(1)] m show ?thesis by auto
qed

lemma load_UserSchema:
  assumes "load E UserSchema body = Inr d"
  shows "\<exists>n a e. map_of d ''name'' = Some (VStr n) \<and> map_of d ''address'' = Some (VStr a) \<and>
           map_of d ''email'' = Some (VStr e)"
  using load_str [OF assms, of "''name''" 50] load_str [OF assms, of "''address''" 150]
    load_str [OF assms, of "''email''" 50]
  by (simp add: UserSchema_def)

lemma load_ProductSchema:
  assumes "load E ProductSchema body = Inr d"
  shows "\<exists>n pr. map_of d ''product_name'' = Some (VStr n) \<and> map_of d ''price'' = Some (VFloat pr)"
  using load_str [OF assms, of "''product_name''" 100] load_float [OF assms, of "''price''"]
  by (simp add: ProductSchema_def)

lemma load_OrderSchema:
  assumes "load E OrderSchema body = Inr d"
  shows "\<exists>uid. map_of d ''user_id'' = Some (VInt uid)"
  using load_int [OF assms, of "''user_id''"]
  by (simp add: OrderSchema_def)

lemma load_fields_extra:
  assumes "k \<notin> fst ` set schema"
  shows "load_fields E (kvs @ [(k, j)]) schema = load_fields E kvs schema"
  using assms
proof (induction schema)
  case Nil
  then show ?case by simp
next
  case (Cons f fs)
  obtain n0 k0 r0 where f: "f = (n0, k0, r0)" by (cases f)
  have ne: "n0 \<noteq> k" using Cons.prems by (auto simp: f)
  have m: "map_of (kvs @ [(k, j)]) n0 = map_of kvs n0"
    using ne by (simp add: map_add_def split: option.splits)
  have "load_fields E (kvs @ [(k, j)]) fs = load_fields E kvs fs"
    using Cons by simp
  then show ?case by (simp add: f m del: map_of_append)
qed

lemma unknown_fields_member:
  assumes "(k, j) \<in> set kvs" and "k \<notin> fst ` set schema"
  shows "(k, [''Unknown field.'']) \<in> set (unknown_fields kvs schema)"
  using assms by (force simp: unknown_fields_def)

subsection \<open>Committing users and products\<close>




lemma insert_user_duplicate:
  assumes "u \<in> set (users s)" and "same_email E (u_email u) e"
  shows "insert_user E s n a e = (Inl IntegrityError, s\<lparr>users_autoinc := users_autoinc s + 1\<rparr>)"
proof -
  have "list_ex (\<lambda>v. u_id v = users_autoinc s \<or> same_email E (u_email v) e) (users s)"
    using assms unfolding list_ex_iff by blast
  then show ?thesis by (simp add: insert_user_def Let_def)
qed

lemma create_user_duplicate:
  assumes l: "load E UserSchema body = Inr d" and e: "map_of d ''email'' = Some (VStr e)"
    and u: "u \<in> set (users s)" and same: "same_email E (u_email u) e"
  shows "create_user E s body =
           (Unhandled IntegrityError, s\<lparr>users_autoinc := users_autoinc s + 1\<rparr>)"
proof -
  from load_UserSchema [OF l] e obtain n a where
    "map_of d ''name'' = Some (VStr n)" and "map_of d ''address'' = Some (VStr a)" by auto
  then show ?thesis
    using e by (simp add: create_user_def l item_str_def insert_user_duplicate [OF u same])
qed

lemma create_user_created:
  assumes l: "load E UserSchema body = Inr d" and e: "map_of d ''email'' = Some (VStr e)"
    and c: "create_user E s0 body = (Response j 201, s1)"
  shows "\<exists>u \<in> set (users s1). u_email u = e \<and> j = dump_user (Some u)"
proof -
  from load_UserSchema [OF l] e obtain n a where
    n: "map_of d ''name'' = Some (VStr n)" and a: "map_of d ''address'' = Some (VStr a)" by auto
  let ?new = "\<lparr>u_id = users_autoinc s0, u_name = n, u_address = a, u_email = e\<rparr>"
  from c have "insert_user E s0 n a e = (Inr ?new, s1) \<and> j = dump_user (Some ?new)"
    using n a e
    by (auto simp: create_user_def l item_str_def insert_user_def Let_def split: if_splits)
  then have "?new \<in> set (users s1)" and "j = dump_user (Some ?new)"
    by (auto simp: insert_user_def Let_def split: if_splits)
  then show ?thesis by (intro bexI [of _ ?new]) simp_all
qed

lemma find_update_row:
  assumes "find (\<lambda>v. f v = i) xs = Some u" and "f u' = i"
  shows "find (\<lambda>v. f v = i) (map (\<lambda>v. if f v = i then u' else v) xs) = Some u'"
  using assms by (induction xs) (auto split: if_splits)

lemma update_user_row_free:
  assumes "\<not> (\<exists>v \<in> set (users s). u_id v \<noteq> u_id u' \<and> same_email E (u_email v) (u_email u'))"
  shows "update_user_row E s u' =
           Inr (s\<lparr>users := map (\<lambda>v. if u_id v = u_id u' then u' else v) (users s)\<rparr>)"
  using assms by (simp add: update_user_row_def list_ex_iff)

lemma update_user_row_taken:
  assumes "v \<in> set (users s)" and "u_id v \<noteq> u_id u'" and "same_email E (u_email v) (u_email u')"
  shows "update_user_row E s u' = Inl IntegrityError"
proof -
  have "list_ex (\<lambda>v. u_id v \<noteq> u_id u' \<and> same_email E (u_email v) (u_email u')) (users s)"
    using assms unfolding list_ex_iff by blast
  then show ?thesis by (simp add: update_user_row_def)
qed

section \<open>The claims\<close>

text \<open>
  C1.  A request to create an order that passes validation and whose \<open>user_id\<close> is the
  id of no user is answered with status 400 and the message \<open>Invalid user_id\<close>; the
  database is left as it was, so no order is persisted.  (A request that does not pass
  validation is answered with status 400 and the messages of the validation, and leaves
  the database as it was, too.)
\<close>

theorem create_order_invalid_user_id:
  assumes "load E OrderSchema body = Inr order_data"
    and "map_of order_data ''user_id'' = Some (VInt uid)"
    and "uid \<notin> u_id ` set (users s)"
  shows "create_order E now s body = (Response (message ''Invalid user_id'') 400, s) \<and>
         orders (snd (create_order E now s body)) = orders s \<and>
         (\<forall>b e. load E OrderSchema b = Inl e \<longrightarrow>
            create_order E now s b = (Response (jsonify_messages e) 400, s))"
proof -
  have "get_User s uid = None" using assms(3) by (simp add: get_User_None)
  then have "create_order E now s body = (Response (message ''Invalid user_id'') 400, s)"
    using assms(1,2) by (simp add: create_order_def item_int_def)
  moreover have "\<forall>b e. load E OrderSchema b = Inl e \<longrightarrow>
            create_order E now s b = (Response (jsonify_messages e) 400, s)"
    by (simp add: create_order_def)
  ultimately show ?thesis by simp
qed

theorem create_order_invalid_user_id_witness:
  "load plain_env OrderSchema (JObj [(''user_id'', JInt 5)]) = Inr [(''user_id'', VInt 5)] \<and>
   5 \<notin> u_id ` set (users shop) \<and>
   create_order plain_env 2000 shop (JObj [(''user_id'', JInt 5)]) =
     (Response (message ''Invalid user_id'') 400, shop) \<and>
   orders (snd (create_order plain_env 2000 shop (JObj [(''user_id'', JInt 5)]))) = orders shop"
proof -
  have h1: "load plain_env OrderSchema (JObj [(''user_id'', JInt 5)]) = Inr [(''user_id'', VInt 5)]"
    by (simp add: eval_defs)
  have h2: "map_of [(''user_id'', VInt 5)] ''user_id'' = Some (VInt 5)" by simp
  have h3: "5 \<notin> u_id ` set (users shop)" by (simp add: shop_eq)
  show ?thesis using h1 h3 create_order_invalid_user_id [OF h1 h2 h3] by simp
qed

text \<open>
  C9.  \<open>GET /users/<id>\<close> with an id that no user has answers with status 200 and
  the empty object, not with an error; \<open>GET /products/<id>\<close> does the same for an id
  that no product has.
\<close>

theorem get_missing_id:
  "(i \<notin> u_id ` set (users s) \<longrightarrow> get_user s i = Response (JObj []) 200) \<and>
   (j \<notin> p_id ` set (products s) \<longrightarrow> get_product s j = Response (JObj []) 200)"
  by (simp add: get_user_def get_product_def dump_user_def dump_product_def
       get_User_None [symmetric] get_Product_None [symmetric])

theorem get_missing_id_witness:
  "7 \<notin> u_id ` set (users shop) \<and> get_user shop 7 = Response (JObj []) 200 \<and>
   8 \<notin> p_id ` set (products shop) \<and> get_product shop 8 = Response (JObj []) 200"
proof -
  have h1: "7 \<notin> u_id ` set (users shop)" and h2: "8 \<notin> p_id ` set (products shop)"
    by (simp_all add: shop_eq)
  show ?thesis using h1 h2 get_missing_id [of 7 shop 8] by simp
qed

text \<open>
  C10.  When the order and the product exist and are not yet associated,
  \<open>add_prod_to_order\<close> succeeds and the database afterwards is the one before with the
  single row \<open>(order_id, product_id)\<close> appended to the association table: the users, the
  orders (with their \<open>user_id\<close> and \<open>order_date\<close>), the products and the products of every
  other order are as before.
\<close>

theorem add_prod_to_order_frame:
  assumes "get_Order s oid = Some ord" and "get_Product s pid = Some p"
    and "(oid, pid) \<notin> set (order_product s)"
  shows "\<exists>s'. add_prod_to_order E s oid pid = (Response (dump_order E (Some ord)) 200, s') \<and>
           s' = s\<lparr>order_product := order_product s @ [(oid, pid)]\<rparr> \<and>
           users s' = users s \<and> orders s' = orders s \<and> products s' = products s \<and>
           get_Order s' oid = Some ord \<and> get_Product s' pid = Some p \<and>
           (\<forall>ord'. o_id ord' \<noteq> oid \<longrightarrow> Order_products s' ord' = Order_products s ord')"
  using assms by (simp add: add_prod_to_order_new Order_products_def cong: if_cong)

theorem add_prod_to_order_frame_witness:
  "get_Order stock 1 = Some \<lparr>o_id = 1, o_order_date = 1000, o_user_id = 1\<rparr> \<and>
   get_Product stock 1 = Some \<lparr>p_id = 1, p_product_name = ''Widget'', p_price = 999 / 100\<rparr> \<and>
   (1, 1) \<notin> set (order_product stock) \<and>
   add_prod_to_order plain_env stock 1 1 =
     (Response (dump_order plain_env (Some \<lparr>o_id = 1, o_order_date = 1000, o_user_id = 1\<rparr>)) 200,
      stock\<lparr>order_product := order_product stock @ [(1, 1)]\<rparr>) \<and>
   users (snd (add_prod_to_order plain_env stock 1 1)) = users stock \<and>
   orders (snd (add_prod_to_order plain_env stock 1 1)) = orders stock \<and>
   products (snd (add_prod_to_order plain_env stock 1 1)) = products stock"
proof -
  have h1: "get_Order stock 1 = Some \<lparr>o_id = 1, o_order_date = 1000, o_user_id = 1\<rparr>"
    by (simp add: stock_eq get_Order_def)
  have h2: "get_Product stock 1 = Some \<lparr>p_id = 1, p_product_name = ''Widget'', p_price = 999 / 100\<rparr>"
    by (simp add: stock_eq get_Product_def)
  have h3: "(1, 1) \<notin> set (order_product stock)" by (simp add: stock_eq)
  from add_prod_to_order_frame [OF h1 h2 h3, of plain_env] h1 h2 h3 show ?thesis by auto
qed

text \<open>
  C7.  For an existing order and an existing product, \<open>add_prod_to_order\<close> followed by
  \<open>remove_prod_from_order\<close> succeeds and leaves no association row for the pair (the
  database is the one before the two calls when the pair was not associated then), so the
  product is not among the products listed for the order; removing the pair once more is
  answered with status 404 and \<open>Product not found in the order\<close>.  A removal that names an
  order or a product that does not exist is answered with status 400 and
  \<open>Invalid order ID\<close> or \<open>Invalid product ID\<close>, and changes nothing.
\<close>

theorem add_then_remove:
  assumes "get_Order s oid = Some ord" and "get_Product s pid = Some p"
    and "add_prod_to_order E s oid pid = (r1, s1)"
    and "remove_prod_from_order s1 oid pid = (r2, s2)"
  shows "r2 = Response (message (''Product '' @ str_int pid @ '' removed from order '' @
                                 str_int oid)) 200 \<and>
         order_product s2 = filter (\<lambda>r. r \<noteq> (oid, pid)) (order_product s) \<and>
         ((oid, pid) \<notin> set (order_product s) \<longrightarrow> s2 = s) \<and>
         pid \<notin> p_id ` set (Order_products s2 ord) \<and>
         get_products_for_order s2 oid =
           (if Order_products s2 ord = []
            then Response (message ''No products found for this order'') 404
            else Response (JArr (map (\<lambda>q. dump_product (Some q)) (Order_products s2 ord))) 200) \<and>
         remove_prod_from_order s2 oid pid =
           (Response (message ''Product not found in the order'') 404, s2) \<and>
         (\<forall>t a b. get_Order t a = None \<longrightarrow>
            remove_prod_from_order t a b = (Response (message ''Invalid order ID'') 400, t)) \<and>
         (\<forall>t a b. get_Order t a \<noteq> None \<longrightarrow> get_Product t b = None \<longrightarrow>
            remove_prod_from_order t a b = (Response (message ''Invalid product ID'') 400, t))"
proof -
  note o = assms(1) and p = assms(2)
  have oid: "o_id ord = oid" using get_Order_Some [OF o] by simp
  have s2: "s2 = s\<lparr>order_product := filter (\<lambda>r. r \<noteq> (oid, pid)) (order_product s)\<rparr>"
    using add_then_remove_store [OF o p, of E] assms(3,4) by simp
  have o2: "get_Order s2 oid = Some ord" and p2: "get_Product s2 pid = Some p"
    using o p by (simp_all add: s2)
  have out: "(oid, pid) \<notin> set (order_product s2)" by (simp add: s2)
  have r2: "r2 = Response (message (''Product '' @ str_int pid @ '' removed from order '' @
                                   str_int oid)) 200"
  proof (cases "(oid, pid) \<in> set (order_product s)")
    case True
    have "s1 = s" using assms(3) by (simp add: add_prod_to_order_old [OF o p True])
    then have "remove_prod_from_order s oid pid = (r2, s2)" using assms(4) by simp
    then show ?thesis by (simp add: remove_prod_from_order_old [OF o p True])
  next
    case False
    let ?s1 = "s\<lparr>order_product := order_product s @ [(oid, pid)]\<rparr>"
    have o1: "get_Order ?s1 oid = Some ord" and p1: "get_Product ?s1 pid = Some p"
      using o p by simp_all
    have in1: "(oid, pid) \<in> set (order_product ?s1)" by simp
    have "s1 = ?s1" using assms(3) by (simp add: add_prod_to_order_new [OF o p False])
    then have "remove_prod_from_order ?s1 oid pid = (r2, s2)" using assms(4) by simp
    then show ?thesis by (simp add: remove_prod_from_order_old [OF o1 p1 in1])
  qed
  have same: "(oid, pid) \<notin> set (order_product s) \<longrightarrow> s2 = s"
  proof
    assume "(oid, pid) \<notin> set (order_product s)"
    then have "filter (\<lambda>r. r \<noteq> (oid, pid)) (order_product s) = order_product s"
      by (auto simp: filter_id_conv)
    then show "s2 = s" by (simp add: s2)
  qed
  have listed: "pid \<notin> p_id ` set (Order_products s2 ord)"
    using out oid by (intro Order_products_no_row) simp
  have lst: "get_products_for_order s2 oid =
           (if Order_products s2 ord = []
            then Response (message ''No products found for this order'') 404
            else Response (JArr (map (\<lambda>q. dump_product (Some q)) (Order_products s2 ord))) 200)"
    by (simp add: get_products_for_order_def o2)
  have again: "remove_prod_from_order s2 oid pid =
           (Response (message ''Product not found in the order'') 404, s2)"
    by (rule remove_prod_from_order_new [OF o2 p2 out])
  have no_order: "\<forall>t a b. get_Order t a = None \<longrightarrow>
            remove_prod_from_order t a b = (Response (message ''Invalid order ID'') 400, t)"
    by (simp add: remove_prod_from_order_def)
  have no_product: "\<forall>t a b. get_Order t a \<noteq> None \<longrightarrow> get_Product t b = None \<longrightarrow>
            remove_prod_from_order t a b = (Response (message ''Invalid product ID'') 400, t)"
    by (auto simp: remove_prod_from_order_def)
  show ?thesis using r2 s2 same listed lst again no_order no_product by simp
qed

theorem add_then_remove_witness:
  "get_Order stock 1 = Some \<lparr>o_id = 1, o_order_date = 1000, o_user_id = 1\<rparr> \<and>
   get_Product stock 1 = Some \<lparr>p_id = 1, p_product_name = ''Widget'', p_price = 999 / 100\<rparr> \<and>
   add_prod_to_order plain_env stock 1 1 =
     (Response (dump_order plain_env (Some \<lparr>o_id = 1, o_order_date = 1000, o_user_id = 1\<rparr>)) 200,
      shop) \<and>
   remove_prod_from_order shop 1 1 =
     (Response (message ''Product 1 removed from order 1'') 200, stock) \<and>
   order_product stock = [] \<and>
   get_products_for_order stock 1 = Response (message ''No products found for this order'') 404 \<and>
   remove_prod_from_order stock 1 1 =
     (Response (message ''Product not found in the order'') 404, stock) \<and>
   get_Order stock 9 = None \<and>
   remove_prod_from_order stock 9 1 = (Response (message ''Invalid order ID'') 400, stock) \<and>
   get_Product stock 9 = None \<and>
   remove_prod_from_order stock 1 9 = (Response (message ''Invalid product ID'') 400, stock)"
proof -
  have h1: "get_Order stock 1 = Some \<lparr>o_id = 1, o_order_date = 1000, o_user_id = 1\<rparr>"
    by (simp add: stock_eq get_Order_def)
  have h2: "get_Product stock 1 = Some \<lparr>p_id = 1, p_product_name = ''Widget'', p_price = 999 / 100\<rparr>"
    by (simp add: stock_eq get_Product_def)
  have h3: "add_prod_to_order plain_env stock 1 1 =
     (Response (dump_order plain_env (Some \<lparr>o_id = 1, o_order_date = 1000, o_user_id = 1\<rparr>)) 200,
      shop)"
    by (simp add: stock_eq shop_eq eval_defs)
  have h4: "remove_prod_from_order shop 1 1 =
     (Response (message ''Product 1 removed from order 1'') 200, stock)"
    by (simp add: stock_eq shop_eq eval_defs str_int_def str_nat.simps)
  have h5: "get_Order stock 9 = None" and h6: "get_Product stock 9 = None"
    by (simp_all add: stock_eq get_Order_def get_Product_def)
  have e: "Order_products stock \<lparr>o_id = 1, o_order_date = 1000, o_user_id = 1\<rparr> = []"
    by (simp add: stock_eq Order_products_def)
  from add_then_remove [OF h1 h2 h3 h4] h1 h2 h3 h4 h5 h6 e show ?thesis
    by (simp add: stock_eq)
qed

text \<open>
  C2.  In any database (\<open>t\<close>), adding a product to an order with which it is already
  associated is answered with status 400 and \<open>Product already exists in the order\<close>, and
  the database is unchanged.  From a database that satisfies the constraints of its tables
  (the empty one does), after any sequence of requests the rows of the association table
  are pairwise different; and when a product is added to an order twice, the second call
  is the refused one and the products listed for the order afterwards contain that
  product exactly once.
\<close>

theorem add_prod_to_order_twice:
  assumes "store_ok E s0" and "s = run E s0 rs"
    and "get_Order s oid = Some ord" and "get_Product s pid = Some p"
    and "add_prod_to_order E s oid pid = (r1, s1)"
    and "add_prod_to_order E s1 oid pid = (r2, s2)"
  shows "r2 = Response (message ''Product already exists in the order'') 400 \<and> s2 = s1 \<and>
         distinct (order_product s) \<and> distinct (order_product s2) \<and>
         count_list (order_product s2) (oid, pid) = 1 \<and>
         (\<exists>ps. get_products_for_order s2 oid =
                 Response (JArr (map (\<lambda>q. dump_product (Some q)) ps)) 200 \<and>
               length (filter (\<lambda>q. p_id q = pid) ps) = 1) \<and>
         (\<forall>t a b x y. get_Order t a = Some x \<longrightarrow> get_Product t b = Some y \<longrightarrow>
            (a, b) \<in> set (order_product t) \<longrightarrow>
            add_prod_to_order E t a b =
              (Response (message ''Product already exists in the order'') 400, t))"
proof -
  note o = assms(3) and p = assms(4)
  have oid: "o_id ord = oid" and pid: "p_id p = pid" and pin: "p \<in> set (products s)"
    using get_Order_Some [OF o] get_Product_Some [OF p] by simp_all
  have ok: "store_ok E s" using assms(1,2) by (simp add: store_ok_run)
  have s1: "s1 = snd (add_prod_to_order E s oid pid)" using assms(5) by simp
  have ok1: "store_ok E s1" unfolding s1 using ok by (rule store_ok_add_prod_to_order)
  have facts1: "get_Order s1 oid = Some ord \<and> get_Product s1 pid = Some p \<and>
                products s1 = products s \<and> (oid, pid) \<in> set (order_product s1)"
  proof (cases "(oid, pid) \<in> set (order_product s)")
    case True
    then show ?thesis using o p by (simp add: s1 add_prod_to_order_old [OF o p True])
  next
    case False
    then show ?thesis using o p by (simp add: s1 add_prod_to_order_new [OF o p False])
  qed
  then have o1: "get_Order s1 oid = Some ord" and p1: "get_Product s1 pid = Some p"
    and in1: "(oid, pid) \<in> set (order_product s1)" and pr1: "products s1 = products s"
    by simp_all
  have second: "r2 = Response (message ''Product already exists in the order'') 400 \<and> s2 = s1"
    using assms(6) by (simp add: add_prod_to_order_old [OF o1 p1 in1])
  then have s2: "s2 = s1" by simp
  have d: "distinct (order_product s)" and d1: "distinct (order_product s1)"
    and dp: "distinct (map p_id (products s1))"
    using ok ok1 by (simp_all add: store_ok_iff)
  have c: "count_list (order_product s1) (oid, pid) = 1"
    using d1 in1 by (rule count_list_distinct)
  have once: "length (filter (\<lambda>q. p_id q = pid) (Order_products s1 ord)) = 1"
    using Order_products_count [OF dp, of p ord] pin c by (simp add: pr1 oid pid)
  then have ne: "Order_products s1 ord \<noteq> []" by auto
  have lst: "get_products_for_order s1 oid =
               Response (JArr (map (\<lambda>q. dump_product (Some q)) (Order_products s1 ord))) 200"
    using ne by (simp add: get_products_for_order_def o1)
  have listed: "\<exists>ps. get_products_for_order s2 oid =
                 Response (JArr (map (\<lambda>q. dump_product (Some q)) ps)) 200 \<and>
               length (filter (\<lambda>q. p_id q = pid) ps) = 1"
    unfolding s2 using lst once by blast
  have conflict: "\<forall>t a b x y. get_Order t a = Some x \<longrightarrow> get_Product t b = Some y \<longrightarrow>
            (a, b) \<in> set (order_product t) \<longrightarrow>
            add_prod_to_order E t a b =
              (Response (message ''Product already exists in the order'') 400, t)"
    by (blast intro: add_prod_to_order_old)
  show ?thesis using second d d1 c listed conflict by (simp add: s2)
qed

theorem add_prod_to_order_twice_witness:
  "store_ok plain_env empty_store \<and>
   stock = run plain_env empty_store
             [POST_users alice, POST_orders 1000 (JObj [(''user_id'', JInt 1)]),
              POST_products widget] \<and>
   get_Order stock 1 = Some \<lparr>o_id = 1, o_order_date = 1000, o_user_id = 1\<rparr> \<and>
   get_Product stock 1 = Some \<lparr>p_id = 1, p_product_name = ''Widget'', p_price = 999 / 100\<rparr> \<and>
   add_prod_to_order plain_env stock 1 1 =
     (Response (dump_order plain_env (Some \<lparr>o_id = 1, o_order_date = 1000, o_user_id = 1\<rparr>)) 200,
      shop) \<and>
   add_prod_to_order plain_env shop 1 1 =
     (Response (message ''Product already exists in the order'') 400, shop) \<and>
   distinct (order_product shop) \<and> count_list (order_product shop) (1, 1) = 1 \<and>
   get_products_for_order shop 1 =
     Response (JArr [dump_product (Some \<lparr>p_id = 1, p_product_name = ''Widget'',
                                          p_price = 999 / 100\<rparr>)]) 200"
proof -
  have h1: "store_ok plain_env empty_store" by (rule store_ok_empty_store)
  have h2: "stock = run plain_env empty_store
             [POST_users alice, POST_orders 1000 (JObj [(''user_id'', JInt 1)]),
              POST_products widget]"
    by (simp only: stock_def)
  have h3: "get_Order stock 1 = Some \<lparr>o_id = 1, o_order_date = 1000, o_user_id = 1\<rparr>"
    by (simp add: stock_eq get_Order_def)
  have h4: "get_Product stock 1 = Some \<lparr>p_id = 1, p_product_name = ''Widget'', p_price = 999 / 100\<rparr>"
    by (simp add: stock_eq get_Product_def)
  have h5: "add_prod_to_order plain_env stock 1 1 =
     (Response (dump_order plain_env (Some \<lparr>o_id = 1, o_order_date = 1000, o_user_id = 1\<rparr>)) 200,
      shop)"
    by (simp add: stock_eq shop_eq eval_defs)
  have h6: "add_prod_to_order plain_env shop 1 1 =
     (Response (message ''Product already exists in the order'') 400, shop)"
    by (simp add: shop_eq eval_defs)
  have l: "get_products_for_order shop 1 =
     Response (JArr [dump_product (Some \<lparr>p_id = 1, p_product_name = ''Widget'',
                                          p_price = 999 / 100\<rparr>)]) 200"
    by (simp add: shop_eq get_products_for_order_def eval_defs)
  from add_prod_to_order_twice [OF h1 h2 h3 h4 h5 h6] h1 h2 h3 h4 h5 h6 l show ?thesis
    by simp
qed

text \<open>
  C3.  On a database that satisfies the constraints of its tables, \<open>delete_product\<close>
  answers 404 \<open>Product not found\<close> when no product has the id; answers 400
  \<open>Cannot delete product because it is associated with orders\<close> and changes nothing (the
  product stays) when a row of the association table refers to the product; and otherwise
  deletes the product and answers 200.  After every association of the product has been
  removed through \<open>remove_prod_from_order\<close>, no row refers to it and the delete succeeds.
\<close>

theorem delete_product_cases:
  assumes "store_ok E s"
  shows "(i \<notin> p_id ` set (products s) \<longrightarrow>
            delete_product s i = (Response (message ''Product not found'') 404, s)) \<and>
         (i \<in> p_id ` set (products s) \<longrightarrow> (\<exists>oid. (oid, i) \<in> set (order_product s)) \<longrightarrow>
            delete_product s i =
              (Response (message ''Cannot delete product because it is associated with orders'') 400,
               s)) \<and>
         (i \<in> p_id ` set (products s) \<longrightarrow> (\<forall>oid. (oid, i) \<notin> set (order_product s)) \<longrightarrow>
            delete_product s i =
              (Response (JArr [message (''Successfully deleted product '' @ str_int i), JInt 200]) 200,
               s\<lparr>products := filter (\<lambda>q. p_id q \<noteq> i) (products s)\<rparr>) \<and>
            i \<notin> p_id ` set (products (snd (delete_product s i)))) \<and>
         (i \<in> p_id ` set (products s) \<longrightarrow>
            (\<forall>oid. (oid, i) \<notin> set (order_product (remove_all_associations s i))) \<and>
            fst (delete_product (remove_all_associations s i) i) =
              Response (JArr [message (''Successfully deleted product '' @ str_int i), JInt 200]) 200 \<and>
            i \<notin> p_id ` set (products (snd (delete_product (remove_all_associations s i) i))))"
proof (intro conjI impI)
  assume "i \<notin> p_id ` set (products s)"
  then have "get_Product s i = None" by (simp add: get_Product_None)
  then show "delete_product s i = (Response (message ''Product not found'') 404, s)"
    by (simp add: delete_product_def)
next
  assume "i \<in> p_id ` set (products s)" and "\<exists>oid. (oid, i) \<in> set (order_product s)"
  then obtain p oid where "get_Product s i = Some p" and "(oid, i) \<in> set (order_product s)"
    using get_Product_None [of s i] by (cases "get_Product s i") auto
  then show "delete_product s i =
      (Response (message ''Cannot delete product because it is associated with orders'') 400, s)"
    using assms by (intro delete_product_referenced)
next
  assume ex: "i \<in> p_id ` set (products s)" and free: "\<forall>oid. (oid, i) \<notin> set (order_product s)"
  then obtain p where p: "get_Product s i = Some p"
    using get_Product_None [of s i] by (cases "get_Product s i") auto
  show "delete_product s i =
      (Response (JArr [message (''Successfully deleted product '' @ str_int i), JInt 200]) 200,
       s\<lparr>products := filter (\<lambda>q. p_id q \<noteq> i) (products s)\<rparr>)"
    using p free by (rule delete_product_free)
  then show "i \<notin> p_id ` set (products (snd (delete_product s i)))" by auto
next
  assume ex: "i \<in> p_id ` set (products s)"
  then obtain p where p: "get_Product s i = Some p"
    using get_Product_None [of s i] by (cases "get_Product s i") auto
  let ?s' = "remove_all_associations s i"
  have s': "?s' = s\<lparr>order_product := filter (\<lambda>(a, b). b \<noteq> i) (order_product s)\<rparr>"
    using assms p by (rule remove_all_associations_store)
  have p': "get_Product ?s' i = Some p" using p by (simp add: s')
  show free: "\<forall>oid. (oid, i) \<notin> set (order_product ?s')" by (simp add: s')
  have del: "delete_product ?s' i =
      (Response (JArr [message (''Successfully deleted product '' @ str_int i), JInt 200]) 200,
       ?s'\<lparr>products := filter (\<lambda>q. p_id q \<noteq> i) (products ?s')\<rparr>)"
    using p' free by (rule delete_product_free)
  show "fst (delete_product ?s' i) =
      Response (JArr [message (''Successfully deleted product '' @ str_int i), JInt 200]) 200"
    by (simp add: del)
  show "i \<notin> p_id ` set (products (snd (delete_product ?s' i)))"
    unfolding del by auto
qed

theorem delete_product_cases_witness:
  "store_ok plain_env shop \<and> store_ok plain_env stock \<and>
   9 \<notin> p_id ` set (products shop) \<and>
   delete_product shop 9 = (Response (message ''Product not found'') 404, shop) \<and>
   1 \<in> p_id ` set (products shop) \<and> (1, 1) \<in> set (order_product shop) \<and>
   delete_product shop 1 =
     (Response (message ''Cannot delete product because it is associated with orders'') 400, shop) \<and>
   remove_all_associations shop 1 = stock \<and>
   1 \<in> p_id ` set (products stock) \<and> (\<forall>oid. (oid, 1) \<notin> set (order_product stock)) \<and>
   delete_product stock 1 =
     (Response (JArr [message ''Successfully deleted product 1'', JInt 200]) 200,
      stock\<lparr>products := []\<rparr>) \<and>
   1 \<notin> p_id ` set (products (snd (delete_product stock 1)))"
proof -
  have a: "9 \<notin> p_id ` set (products shop)" and b: "1 \<in> p_id ` set (products shop)"
    and c: "(1, 1) \<in> set (order_product shop)" and d: "1 \<in> p_id ` set (products stock)"
    and e: "\<forall>oid. (oid, 1) \<notin> set (order_product stock)"
    by (simp_all add: shop_eq stock_eq)
  have r: "remove_all_associations shop 1 = stock"
    by (simp add: remove_all_associations_def shop_eq stock_eq eval_defs)
  have f: "filter (\<lambda>q. p_id q \<noteq> 1) (products stock) = []"
    and g: "str_int 1 = ''1''"
    by (simp_all add: stock_eq str_int_def str_nat.simps)
  from delete_product_cases [OF store_ok_shop, of 9] delete_product_cases [OF store_ok_shop, of 1]
    delete_product_cases [OF store_ok_stock, of 1] a b c d e r f g store_ok_shop store_ok_stock
  show ?thesis by (simp (no_asm_simp)) blast
qed

text \<open>
  C8.  Validation does not ignore unknown fields, it refuses them: an input object with a
  member whose name the schema does not declare is rejected, and the messages hold
  \<open>Unknown field.\<close> under that name.  In particular an input that is valid on the declared
  fields stops being accepted when such a member is added to it: the only message is then the
  one of the added member.  This holds for every schema, so for the three of the application.
\<close>

theorem load_unknown_field:
  assumes "k \<notin> fst ` set schema"
  shows "((k, j) \<in> set kvs \<longrightarrow>
            (\<exists>e. load E schema (JObj kvs) = Inl e \<and> (k, [''Unknown field.'']) \<in> set e)) \<and>
         (load E schema (JObj kvs) = Inr d \<longrightarrow>
            load E schema (JObj (kvs @ [(k, j)])) = Inl [(k, [''Unknown field.''])])"
proof (intro conjI impI)
  assume mem: "(k, j) \<in> set kvs"
  obtain errs vals where lf: "load_fields E kvs schema = (errs, vals)"
    by (cases "load_fields E kvs schema")
  have u: "(k, [''Unknown field.'']) \<in> set (unknown_fields kvs schema)"
    using mem assms by (rule unknown_fields_member)
  then have ne: "errs @ unknown_fields kvs schema \<noteq> []" by auto
  have "load E schema (JObj kvs) = Inl (errs @ unknown_fields kvs schema)"
    using ne by (simp add: load_def lf)
  then show "\<exists>e. load E schema (JObj kvs) = Inl e \<and> (k, [''Unknown field.'']) \<in> set e"
    using u by auto
next
  assume ok: "load E schema (JObj kvs) = Inr d"
  from load_Inr [OF ok] have lf: "load_fields E kvs schema = ([], d)"
    and un: "unknown_fields kvs schema = []" by simp_all
  have lf': "load_fields E (kvs @ [(k, j)]) schema = ([], d)"
    using load_fields_extra [OF assms] lf by simp
  have un': "unknown_fields (kvs @ [(k, j)]) schema = [(k, [''Unknown field.''])]"
    using un assms by (simp add: unknown_fields_def)
  show "load E schema (JObj (kvs @ [(k, j)])) = Inl [(k, [''Unknown field.''])]"
    by (simp add: load_def lf' un')
qed

theorem load_unknown_field_witness:
  "''nickname'' \<notin> fst ` set UserSchema \<and>
   load plain_env UserSchema
     (JObj [(''name'', JStr ''A''), (''address'', JStr ''X''), (''email'', JStr ''a@x.com'')]) =
     Inr [(''name'', VStr ''A''), (''address'', VStr ''X''), (''email'', VStr ''a@x.com'')] \<and>
   load plain_env UserSchema
     (JObj ([(''name'', JStr ''A''), (''address'', JStr ''X''), (''email'', JStr ''a@x.com'')] @
            [(''nickname'', JStr ''Al'')])) =
     Inl [(''nickname'', [''Unknown field.''])]"
proof -
  have h1: "''nickname'' \<notin> fst ` set UserSchema" by (simp add: UserSchema_def)
  have h2: "load plain_env UserSchema
     (JObj [(''name'', JStr ''A''), (''address'', JStr ''X''), (''email'', JStr ''a@x.com'')]) =
     Inr [(''name'', VStr ''A''), (''address'', VStr ''X''), (''email'', VStr ''a@x.com'')]"
    by (simp add: eval_defs)
  from load_unknown_field [OF h1, of "JStr ''Al''" _ plain_env] h1 h2 show ?thesis by blast
qed

text \<open>
  The claim as the specification states it fails: the customer of the end-to-end example
  is accepted, and the same input with one more member is rejected, by the schema and by
  the route.
\<close>

theorem unknown_field_counterexample:
  "load plain_env UserSchema alice =
     Inr [(''name'', VStr ''A''), (''address'', VStr ''X''), (''email'', VStr ''a@x.com'')] \<and>
   load plain_env UserSchema
     (JObj [(''name'', JStr ''A''), (''address'', JStr ''X''), (''email'', JStr ''a@x.com''),
            (''nickname'', JStr ''Al'')]) =
     Inl [(''nickname'', [''Unknown field.''])] \<and>
   create_user plain_env empty_store
     (JObj [(''name'', JStr ''A''), (''address'', JStr ''X''), (''email'', JStr ''a@x.com''),
            (''nickname'', JStr ''Al'')]) =
     (Response (JObj [(''nickname'', JArr [JStr ''Unknown field.''])]) 400, empty_store)"
  by (simp add: eval_defs jsonify_messages_def)




text \<open>
  C4.  Of two requests to create a user that pass validation and carry the same email, when
  the first one has created its user, the second one ends in the \<open>IntegrityError\<close> that
  the commit raises for the unique email and that \<open>create_user\<close> does not catch: no
  response with an error body is built.  The tables are as the first request left them, the
  first user's row included.  The same holds in every database in which some user has that
  email.
\<close>

theorem create_user_duplicate_email:
  assumes "load E UserSchema body1 = Inr d1" and "map_of d1 ''email'' = Some (VStr e)"
    and "load E UserSchema body2 = Inr d2" and "map_of d2 ''email'' = Some (VStr e)"
    and "create_user E s0 body1 = (Response j 201, s1)"
  shows "(\<exists>u \<in> set (users s1). u_email u = e \<and> j = dump_user (Some u)) \<and>
         create_user E s1 body2 =
           (Unhandled IntegrityError, s1\<lparr>users_autoinc := users_autoinc s1 + 1\<rparr>) \<and>
         users (snd (create_user E s1 body2)) = users s1 \<and>
         (\<forall>s u. u \<in> set (users s) \<longrightarrow> same_email E (u_email u) e \<longrightarrow>
            create_user E s body2 =
              (Unhandled IntegrityError, s\<lparr>users_autoinc := users_autoinc s + 1\<rparr>))"
proof -
  have first: "\<exists>u \<in> set (users s1). u_email u = e \<and> j = dump_user (Some u)"
    using assms(1,2,5) by (rule create_user_created)
  have gen: "\<forall>s u. u \<in> set (users s) \<longrightarrow> same_email E (u_email u) e \<longrightarrow>
            create_user E s body2 =
              (Unhandled IntegrityError, s\<lparr>users_autoinc := users_autoinc s + 1\<rparr>)"
    using assms(3,4) by (blast intro: create_user_duplicate)
  from first obtain u where "u \<in> set (users s1)" and "same_email E (u_email u) e"
    by (auto simp: same_email_def)
  with gen have second: "create_user E s1 body2 =
           (Unhandled IntegrityError, s1\<lparr>users_autoinc := users_autoinc s1 + 1\<rparr>)"
    by blast
  show ?thesis using first second gen by simp
qed

theorem create_user_duplicate_email_witness:
  "load plain_env UserSchema alice =
     Inr [(''name'', VStr ''A''), (''address'', VStr ''X''), (''email'', VStr ''a@x.com'')] \<and>
   create_user plain_env empty_store alice =
     (Response (dump_user (Some \<lparr>u_id = 1, u_name = ''A'', u_address = ''X'',
                                   u_email = ''a@x.com''\<rparr>)) 201,
      empty_store\<lparr>users_autoinc := 2,
                   users := [\<lparr>u_id = 1, u_name = ''A'', u_address = ''X'', u_email = ''a@x.com''\<rparr>]\<rparr>) \<and>
   fst (create_user plain_env
      (empty_store\<lparr>users_autoinc := 2,
                   users := [\<lparr>u_id = 1, u_name = ''A'', u_address = ''X'', u_email = ''a@x.com''\<rparr>]\<rparr>)
      alice) = Unhandled IntegrityError \<and>
   users (snd (create_user plain_env
      (empty_store\<lparr>users_autoinc := 2,
                   users := [\<lparr>u_id = 1, u_name = ''A'', u_address = ''X'', u_email = ''a@x.com''\<rparr>]\<rparr>)
      alice)) = [\<lparr>u_id = 1, u_name = ''A'', u_address = ''X'', u_email = ''a@x.com''\<rparr>]"
proof -
  have h1: "load plain_env UserSchema alice =
     Inr [(''name'', VStr ''A''), (''address'', VStr ''X''), (''email'', VStr ''a@x.com'')]"
    by (simp add: eval_defs)
  have h2: "map_of [(''name'', VStr ''A''), (''address'', VStr ''X''), (''email'', VStr ''a@x.com'')]
              ''email'' = Some (VStr ''a@x.com'')" by simp
  have h3: "create_user plain_env empty_store alice =
     (Response (dump_user (Some \<lparr>u_id = 1, u_name = ''A'', u_address = ''X'',
                                   u_email = ''a@x.com''\<rparr>)) 201,
      empty_store\<lparr>users_autoinc := 2,
                   users := [\<lparr>u_id = 1, u_name = ''A'', u_address = ''X'', u_email = ''a@x.com''\<rparr>]\<rparr>)"
    by (simp add: eval_defs)
  from create_user_duplicate_email [OF h1 h2 h1 h2 h3] h1 h3 show ?thesis
    by (simp add: empty_store_def)
qed

text \<open>
  The claim as the specification states it fails: the second of two requests with the
  customer of the end-to-end example is not answered with an error response, the view
  function is left by the exception.
\<close>

theorem duplicate_email_counterexample:
  "fst (create_user plain_env empty_store alice) =
     Response (JObj [(''id'', JInt 1), (''name'', JStr ''A''), (''address'', JStr ''X''),
                     (''email'', JStr ''a@x.com'')]) 201 \<and>
   fst (create_user plain_env (snd (create_user plain_env empty_store alice)) alice) =
     Unhandled IntegrityError"
  by (simp add: eval_defs dump_user_def)

text \<open>
  C6.  \<open>update_user\<close> with an id that no user has answers 400 \<open>Invalid user id\<close> and
  changes nothing, whatever the body.  For a body that passes validation and an existing
  user: when no other user has the new email, the name, the address and the email of the
  user's row are replaced by those of the body, the id and every other row stay, and the
  answer is the new row with status 200; when another user has the new email, the commit
  raises \<open>IntegrityError\<close> for the unique email, which \<open>update_user\<close> does not catch, no
  error response is built, and the database is unchanged.  The route itself compares no
  emails: the uniqueness is checked by the table alone, at the commit.
\<close>

theorem update_user_cases:
  assumes "load E UserSchema body = Inr user_data"
    and "map_of user_data ''name'' = Some (VStr n)"
    and "map_of user_data ''address'' = Some (VStr a)"
    and "map_of user_data ''email'' = Some (VStr e)"
  shows "(\<forall>b. i \<notin> u_id ` set (users s) \<longrightarrow>
            update_user E s i b = (Response (message ''Invalid user id'') 400, s)) \<and>
         (\<forall>u. get_User s i = Some u \<longrightarrow>
            \<not> (\<exists>v \<in> set (users s). u_id v \<noteq> i \<and> same_email E (u_email v) e) \<longrightarrow>
            update_user E s i body =
              (Response (dump_user (Some (u\<lparr>u_name := n, u_address := a, u_email := e\<rparr>))) 200,
               s\<lparr>users := map (\<lambda>v. if u_id v = i
                                     then u\<lparr>u_name := n, u_address := a, u_email := e\<rparr> else v)
                               (users s)\<rparr>) \<and>
            get_User (snd (update_user E s i body)) i =
              Some (u\<lparr>u_name := n, u_address := a, u_email := e\<rparr>)) \<and>
         (\<forall>u. get_User s i = Some u \<longrightarrow>
            (\<exists>v \<in> set (users s). u_id v \<noteq> i \<and> same_email E (u_email v) e) \<longrightarrow>
            update_user E s i body = (Unhandled IntegrityError, s))"
proof (intro conjI allI impI)
  fix b assume "i \<notin> u_id ` set (users s)"
  then have "get_User s i = None" by (simp add: get_User_None)
  then show "update_user E s i b = (Response (message ''Invalid user id'') 400, s)"
    by (simp add: update_user_def)
next
  fix u assume u: "get_User s i = Some u"
    and free: "\<not> (\<exists>v \<in> set (users s). u_id v \<noteq> i \<and> same_email E (u_email v) e)"
  let ?u' = "u\<lparr>u_name := n, u_address := a, u_email := e\<rparr>"
  have id: "u_id u = i" using get_User_Some [OF u] by simp
  have row: "update_user_row E s ?u' =
      Inr (s\<lparr>users := map (\<lambda>v. if u_id v = i then ?u' else v) (users s)\<rparr>)"
    using update_user_row_free [of s ?u' E] free by (simp add: id)
  show upd: "update_user E s i body =
      (Response (dump_user (Some ?u')) 200,
       s\<lparr>users := map (\<lambda>v. if u_id v = i then ?u' else v) (users s)\<rparr>)"
    using assms by (simp add: update_user_def u item_str_def Let_def row)
  have "find (\<lambda>v. u_id v = i) (map (\<lambda>v. if u_id v = i then ?u' else v) (users s)) = Some ?u'"
    using u by (intro find_update_row) (simp_all add: get_User_def id)
  then show "get_User (snd (update_user E s i body)) i = Some ?u'"
    by (simp add: upd get_User_def)
next
  fix u assume u: "get_User s i = Some u"
    and taken: "\<exists>v \<in> set (users s). u_id v \<noteq> i \<and> same_email E (u_email v) e"
  let ?u' = "u\<lparr>u_name := n, u_address := a, u_email := e\<rparr>"
  have id: "u_id u = i" using get_User_Some [OF u] by simp
  from taken obtain v where "v \<in> set (users s)" and "u_id v \<noteq> u_id ?u'"
    and "same_email E (u_email v) (u_email ?u')" by (auto simp: id)
  then have row: "update_user_row E s ?u' = Inl IntegrityError"
    by (rule update_user_row_taken)
  show "update_user E s i body = (Unhandled IntegrityError, s)"
    using assms by (simp add: update_user_def u item_str_def Let_def row)
qed

theorem update_user_cases_witness:
  "load plain_env UserSchema alice =
     Inr [(''name'', VStr ''A''), (''address'', VStr ''X''), (''email'', VStr ''a@x.com'')] \<and>
   load plain_env UserSchema
     (JObj [(''name'', JStr ''C''), (''address'', JStr ''Z''), (''email'', JStr ''c@z.com'')]) =
     Inr [(''name'', VStr ''C''), (''address'', VStr ''Z''), (''email'', VStr ''c@z.com'')] \<and>
   9 \<notin> u_id ` set (users two_users) \<and>
   update_user plain_env two_users 9 alice =
     (Response (message ''Invalid user id'') 400, two_users) \<and>
   get_User two_users 2 = Some \<lparr>u_id = 2, u_name = ''B'', u_address = ''Y'', u_email = ''b@y.com''\<rparr> \<and>
   update_user plain_env two_users 2
     (JObj [(''name'', JStr ''C''), (''address'', JStr ''Z''), (''email'', JStr ''c@z.com'')]) =
     (Response (dump_user (Some \<lparr>u_id = 2, u_name = ''C'', u_address = ''Z'',
                                   u_email = ''c@z.com''\<rparr>)) 200,
      two_users\<lparr>users := [\<lparr>u_id = 1, u_name = ''A'', u_address = ''X'', u_email = ''a@x.com''\<rparr>,
                            \<lparr>u_id = 2, u_name = ''C'', u_address = ''Z'', u_email = ''c@z.com''\<rparr>]\<rparr>) \<and>
   update_user plain_env two_users 2 alice = (Unhandled IntegrityError, two_users)"
proof -
  have h1: "load plain_env UserSchema alice =
     Inr [(''name'', VStr ''A''), (''address'', VStr ''X''), (''email'', VStr ''a@x.com'')]"
    by (simp add: eval_defs)
  have h2: "map_of [(''name'', VStr ''A''), (''address'', VStr ''X''), (''email'', VStr ''a@x.com'')]
              ''name'' = Some (VStr ''A'')"
    and h3: "map_of [(''name'', VStr ''A''), (''address'', VStr ''X''), (''email'', VStr ''a@x.com'')]
              ''address'' = Some (VStr ''X'')"
    and h4: "map_of [(''name'', VStr ''A''), (''address'', VStr ''X''), (''email'', VStr ''a@x.com'')]
              ''email'' = Some (VStr ''a@x.com'')"
    by simp_all
  have k1: "load plain_env UserSchema
     (JObj [(''name'', JStr ''C''), (''address'', JStr ''Z''), (''email'', JStr ''c@z.com'')]) =
     Inr [(''name'', VStr ''C''), (''address'', VStr ''Z''), (''email'', VStr ''c@z.com'')]"
    by (simp add: eval_defs)
  have k2: "map_of [(''name'', VStr ''C''), (''address'', VStr ''Z''), (''email'', VStr ''c@z.com'')]
              ''name'' = Some (VStr ''C'')"
    and k3: "map_of [(''name'', VStr ''C''), (''address'', VStr ''Z''), (''email'', VStr ''c@z.com'')]
              ''address'' = Some (VStr ''Z'')"
    and k4: "map_of [(''name'', VStr ''C''), (''address'', VStr ''Z''), (''email'', VStr ''c@z.com'')]
              ''email'' = Some (VStr ''c@z.com'')"
    by simp_all
  have a: "9 \<notin> u_id ` set (users two_users)"
    and c: "get_User two_users 2 =
              Some \<lparr>u_id = 2, u_name = ''B'', u_address = ''Y'', u_email = ''b@y.com''\<rparr>"
    and d: "\<not> (\<exists>v \<in> set (users two_users). u_id v \<noteq> 2 \<and>
                same_email plain_env (u_email v) ''c@z.com'')"
    and e: "\<exists>v \<in> set (users two_users). u_id v \<noteq> 2 \<and> same_email plain_env (u_email v) ''a@x.com''"
    by (simp_all add: two_users_eq get_User_def same_email_def plain_env_def)
  have m: "map (\<lambda>v. if u_id v = 2
             then \<lparr>u_id = 2, u_name = ''B'', u_address = ''Y'', u_email = ''b@y.com''\<rparr>
                    \<lparr>u_name := ''C'', u_address := ''Z'', u_email := ''c@z.com''\<rparr> else v)
             (users two_users) =
           [\<lparr>u_id = 1, u_name = ''A'', u_address = ''X'', u_email = ''a@x.com''\<rparr>,
            \<lparr>u_id = 2, u_name = ''C'', u_address = ''Z'', u_email = ''c@z.com''\<rparr>]"
    by (simp add: two_users_eq)
  note t1 = update_user_cases [OF h1 h2 h3 h4, of 9 two_users]
  note t2 = update_user_cases [OF k1 k2 k3 k4, of 2 two_users]
  note t3 = update_user_cases [OF h1 h2 h3 h4, of 2 two_users]
  have r1: "update_user plain_env two_users 9 alice =
     (Response (message ''Invalid user id'') 400, two_users)"
    using t1 a by blast
  have "update_user plain_env two_users 2
     (JObj [(''name'', JStr ''C''), (''address'', JStr ''Z''), (''email'', JStr ''c@z.com'')]) =
     (Response (dump_user (Some (\<lparr>u_id = 2, u_name = ''B'', u_address = ''Y'', u_email = ''b@y.com''\<rparr>
                    \<lparr>u_name := ''C'', u_address := ''Z'', u_email := ''c@z.com''\<rparr>))) 200,
      two_users\<lparr>users := map (\<lambda>v. if u_id v = 2
             then \<lparr>u_id = 2, u_name = ''B'', u_address = ''Y'', u_email = ''b@y.com''\<rparr>
                    \<lparr>u_name := ''C'', u_address := ''Z'', u_email := ''c@z.com''\<rparr> else v)
             (users two_users)\<rparr>)"
    using t2 c d by blast
  then have r2: "update_user plain_env two_users 2
     (JObj [(''name'', JStr ''C''), (''address'', JStr ''Z''), (''email'', JStr ''c@z.com'')]) =
     (Response (dump_user (Some \<lparr>u_id = 2, u_name = ''C'', u_address = ''Z'',
                                   u_email = ''c@z.com''\<rparr>)) 200,
      two_users\<lparr>users := [\<lparr>u_id = 1, u_name = ''A'', u_address = ''X'', u_email = ''a@x.com''\<rparr>,
                            \<lparr>u_id = 2, u_name = ''C'', u_address = ''Z'', u_email = ''c@z.com''\<rparr>]\<rparr>)"
    unfolding m by simp
  have r3: "update_user plain_env two_users 2 alice = (Unhandled IntegrityError, two_users)"
    using t3 c e by blast
  show ?thesis using h1 k1 a c r1 r2 r3 by simp
qed

text \<open>
  The claim as the specification states it fails in its last part: the second customer is
  updated to the email of the first, and the request is not answered with an error
  response, the view function is left by the exception.
\<close>

theorem update_email_conflict_counterexample:
  "update_user plain_env two_users 2
     (JObj [(''name'', JStr ''B''), (''address'', JStr ''Y''), (''email'', JStr ''a@x.com'')]) =
     (Unhandled IntegrityError, two_users)"
  by (simp add: two_users_eq eval_defs)

end
